theory Spec2Isabelle
  imports Main "HOL-Library.Word"
begin

unbundle bit_operations_syntax

section \<open>Go values used by the operator\<close>

subsection \<open>Strings\<close>

text \<open>
  A Go \<^verbatim>\<open>string\<close> is a sequence of bytes, here a \<^typ>\<open>string\<close>.
  \<^verbatim>\<open>strings.HasPrefix\<close>, \<^verbatim>\<open>strings.Contains\<close> and
  \<^verbatim>\<open>strings.Split\<close> (with a one-byte separator, the only use in the source)
  are written out; \<^verbatim>\<open>itoa\<close> is the \<^verbatim>\<open>%d\<close> verb of
  \<^verbatim>\<open>fmt.Sprintf\<close> on a non-negative integer.
\<close>

fun HasPrefix :: "string \<Rightarrow> string \<Rightarrow> bool" where
  "HasPrefix s [] = True"
| "HasPrefix [] (p # ps) = False"
| "HasPrefix (c # s) (p # ps) = (c = p \<and> HasPrefix s ps)"

fun Contains :: "string \<Rightarrow> string \<Rightarrow> bool" where
  "Contains [] substr = (substr = [])"
| "Contains (c # s) substr = (HasPrefix (c # s) substr \<or> Contains s substr)"

fun Split :: "string \<Rightarrow> char \<Rightarrow> string list" where
  "Split [] sep = [[]]"
| "Split (c # s) sep =
     (if c = sep then [] # Split s sep
      else (case Split s sep of [] \<Rightarrow> [[c]] | x # xs \<Rightarrow> (c # x) # xs))"

definition digitChar :: "nat \<Rightarrow> char" where
  "digitChar d = ''0123456789'' ! d"

fun itoa :: "nat \<Rightarrow> string" where
  "itoa n = (if n < 10 then [digitChar n] else itoa (n div 10) @ [digitChar (n mod 10)])"

declare itoa.simps [simp del]

subsection \<open>Errors and panics\<close>

text \<open>
  A Go \<^verbatim>\<open>error\<close> value. The three package-level sentinels of
  \<^verbatim>\<open>topology/builtin.go\<close> are compared by identity
  (\<^verbatim>\<open>err == errAlreadyJoined\<close>), so each is a constructor of its own: an
  error made elsewhere with the same text is a different value. \<open>ErrNew\<close> is
  \<^verbatim>\<open>errors.New\<close> or \<^verbatim>\<open>fmt.Errorf\<close> with its text,
  \<open>ErrTransport\<close> an error handed up by the HTTP or GraphQL client,
  \<open>ErrNum\<close> a \<^verbatim>\<open>*strconv.NumError\<close>, \<open>ErrKube\<close> an error of the
  object store other than not-found, \<open>ErrNotFound\<close> the one
  \<^verbatim>\<open>errors.IsNotFound\<close> recognises.
\<close>

datatype numerr = ErrSyntax | ErrRange

datatype goerror =
    ErrTopologyIsDown
  | ErrAlreadyJoined
  | ErrAlreadyBootstrapped
  | ErrNew string
  | ErrTransport string
  | ErrNum string numerr
  | ErrKube string
  | ErrNotFound

datatype panic = NilMapWrite | NilDeref

definition IsTopologyDown :: "goerror \<Rightarrow> bool" where
  "IsTopologyDown err = (err = ErrTopologyIsDown)"

definition IsAlreadyJoined :: "goerror \<Rightarrow> bool" where
  "IsAlreadyJoined err = (err = ErrAlreadyJoined)"

definition IsAlreadyBootstrapped :: "goerror \<Rightarrow> bool" where
  "IsAlreadyBootstrapped err = (err = ErrAlreadyBootstrapped)"

subsection \<open>Maps\<close>

text \<open>
  A Go \<^verbatim>\<open>map[string]string\<close> may be \<^verbatim>\<open>nil\<close>: reading a nil map finds
  nothing, writing to it panics.
\<close>

type_synonym gomap = "(string \<rightharpoonup> string) option"

definition mapGet :: "gomap \<Rightarrow> string \<Rightarrow> string option" where
  "mapGet m k = (case m of None \<Rightarrow> None | Some f \<Rightarrow> f k)"

definition mapIndex :: "gomap \<Rightarrow> string \<Rightarrow> string" where
  "mapIndex m k = (case mapGet m k of None \<Rightarrow> [] | Some v \<Rightarrow> v)"

definition mapSet :: "gomap \<Rightarrow> string \<Rightarrow> string \<Rightarrow> panic + gomap" where
  "mapSet m k v = (case m of None \<Rightarrow> Inl NilMapWrite | Some f \<Rightarrow> Inr (Some (f(k \<mapsto> v))))"

subsection \<open>\<^verbatim>\<open>strconv.ParseUint(s, 10, 32)\<close>\<close>

text \<open>
  The standard library's loop for base 10 and bit size 32: an empty string and a byte
  that is not a decimal digit are syntax errors, a value above \<open>2^32 - 1\<close> is a range
  error, found in the order the bytes are read. The accumulator is a
  \<^verbatim>\<open>uint64\<close>, its wrap-around written out.
\<close>

definition isDigit :: "char \<Rightarrow> bool" where
  "isDigit c = (48 \<le> (of_char c :: nat) \<and> (of_char c :: nat) \<le> 57)"

fun parseUintLoop :: "string \<Rightarrow> nat \<Rightarrow> numerr + nat" where
  "parseUintLoop [] n = Inr n"
| "parseUintLoop (c # cs) n =
     (if \<not> isDigit c then Inl ErrSyntax
      else if n \<ge> 18446744073709551615 div 10 + 1 then Inl ErrRange
      else (let n1 = (n * 10 + (of_char c - 48)) mod 18446744073709551616
            in if n1 < n * 10 \<or> n1 > 4294967295 then Inl ErrRange
               else parseUintLoop cs n1))"

definition ParseUint :: "string \<Rightarrow> goerror + nat" where
  "ParseUint s =
     (if s = [] then Inl (ErrNum s ErrSyntax)
      else (case parseUintLoop s 0 of Inl e \<Rightarrow> Inl (ErrNum s e) | Inr n \<Rightarrow> Inr n))"

subsection \<open>\<^verbatim>\<open>encoding/json\<close>: decoding into a string and into a string slice\<close>

text \<open>
  \<^verbatim>\<open>GetRoles\<close> calls \<^verbatim>\<open>json.Unmarshal\<close> with a
  \<^verbatim>\<open>*string\<close> and then with a \<^verbatim>\<open>*[]string\<close>, and looks only at
  whether each call failed. The standard library's decoder succeeds on a
  \<^verbatim>\<open>*string\<close> exactly when the whole text is a JSON string literal or the
  literal \<^verbatim>\<open>null\<close> (which leaves the Go variable at its zero value, the
  empty string), white space around it allowed; on a \<^verbatim>\<open>*[]string\<close> exactly
  when it is an array whose elements are string literals or \<^verbatim>\<open>null\<close>, or
  is \<^verbatim>\<open>null\<close> itself (a nil slice). Every other text is either not
  valid JSON or holds a value of another kind, and both are errors. String
  literals are unquoted as the decoder does it: the two-character escapes, a
  \<^verbatim>\<open>\u\<close> escape with four hexadecimal digits (surrogate pairs combined, a
  lone surrogate replaced by U+FFFD), bytes below 0x20 refused, and bytes that
  are not well-formed UTF-8 replaced by U+FFFD.
\<close>

definition isSpace :: "char \<Rightarrow> bool" where
  "isSpace c = (c = CHR 0x20 \<or> c = CHR 0x09 \<or> c = CHR 0x0D \<or> c = CHR 0x0A)"

definition skipSpace :: "string \<Rightarrow> string" where
  "skipSpace s = dropWhile isSpace s"

definition hexVal :: "char \<Rightarrow> nat option" where
  "hexVal c =
     (let n = (of_char c :: nat) in
      if 48 \<le> n \<and> n \<le> 57 then Some (n - 48)
      else if 97 \<le> n \<and> n \<le> 102 then Some (n - 87)
      else if 65 \<le> n \<and> n \<le> 70 then Some (n - 55)
      else None)"

text \<open>\<open>getu4\<close> reads the four hexadecimal digits that follow \<^verbatim>\<open>\u\<close>.\<close>

definition getu4 :: "string \<Rightarrow> nat option" where
  "getu4 s =
     (case s of
        a # b # c # d # rest \<Rightarrow>
          (case (hexVal a, hexVal b, hexVal c, hexVal d) of
             (Some x, Some y, Some z, Some w) \<Rightarrow> Some (((x * 16 + y) * 16 + z) * 16 + w)
           | _ \<Rightarrow> None)
      | _ \<Rightarrow> None)"

definition getu4esc :: "string \<Rightarrow> nat option" where
  "getu4esc s =
     (case s of
        b # u # rest \<Rightarrow> if b = CHR 0x5C \<and> u = CHR ''u'' then getu4 rest else None
      | _ \<Rightarrow> None)"

definition replacementChar :: string where
  "replacementChar = [CHR 0xEF, CHR 0xBF, CHR 0xBD]"

definition encodeRune :: "nat \<Rightarrow> string" where
  "encodeRune r =
     (if r < 128 then [char_of r]
      else if r < 2048 then [char_of (192 + r div 64), char_of (128 + r mod 64)]
      else if (55296 \<le> r \<and> r < 57344) \<or> r > 1114111 then replacementChar
      else if r < 65536 then
        [char_of (224 + r div 4096), char_of (128 + r div 64 mod 64), char_of (128 + r mod 64)]
      else [char_of (240 + r div 262144), char_of (128 + r div 4096 mod 64),
            char_of (128 + r div 64 mod 64), char_of (128 + r mod 64)])"

definition isSurrogate :: "nat \<Rightarrow> bool" where
  "isSurrogate r = (55296 \<le> r \<and> r < 57344)"

text \<open>\<^verbatim>\<open>utf16.DecodeRune\<close>: \<open>None\<close> stands for the replacement character.\<close>

definition decodeSurrogates :: "nat \<Rightarrow> nat \<Rightarrow> nat option" where
  "decodeSurrogates r1 r2 =
     (if 55296 \<le> r1 \<and> r1 < 56320 \<and> 56320 \<le> r2 \<and> r2 < 57344
      then Some ((r1 - 55296) * 1024 + (r2 - 56320) + 65536) else None)"

definition escChar :: "char \<Rightarrow> char option" where
  "escChar e =
     (if e = CHR 0x22 \<or> e = CHR 0x5C \<or> e = CHR ''/'' then Some e
      else if e = CHR ''b'' then Some (CHR 0x08)
      else if e = CHR ''f'' then Some (CHR 0x0C)
      else if e = CHR ''n'' then Some (CHR 0x0A)
      else if e = CHR ''r'' then Some (CHR 0x0D)
      else if e = CHR ''t'' then Some (CHR 0x09)
      else None)"

definition isCont :: "char \<Rightarrow> bool" where
  "isCont c = (128 \<le> (of_char c :: nat) \<and> (of_char c :: nat) < 192)"

text \<open>
  The length of the well-formed UTF-8 sequence at the head of a string whose first
  byte is 0x80 or more; 0 when there is none (\<^verbatim>\<open>utf8.DecodeRune\<close> then
  returns the error rune with size 1).
\<close>

definition utf8Len :: "string \<Rightarrow> nat" where
  "utf8Len s =
     (case s of
        [] \<Rightarrow> 0
      | c0 # s1 \<Rightarrow>
          (let b0 = (of_char c0 :: nat) in
           if 194 \<le> b0 \<and> b0 \<le> 223 then
             (case s1 of c1 # _ \<Rightarrow> if isCont c1 then 2 else 0 | _ \<Rightarrow> 0)
           else if 224 \<le> b0 \<and> b0 \<le> 239 then
             (case s1 of
                c1 # c2 # _ \<Rightarrow>
                  (let b1 = (of_char c1 :: nat) in
                   if isCont c1 \<and> isCont c2 \<and> (if b0 = 224 then 160 \<le> b1 else True)
                      \<and> (if b0 = 237 then b1 < 160 else True)
                   then 3 else 0)
              | _ \<Rightarrow> 0)
           else if 240 \<le> b0 \<and> b0 \<le> 244 then
             (case s1 of
                c1 # c2 # c3 # _ \<Rightarrow>
                  (let b1 = (of_char c1 :: nat) in
                   if isCont c1 \<and> isCont c2 \<and> isCont c3 \<and> (if b0 = 240 then 144 \<le> b1 else True)
                      \<and> (if b0 = 244 then b1 < 144 else True)
                   then 4 else 0)
              | _ \<Rightarrow> 0)
           else 0))"

text \<open>
  \<open>unquoteStep c s\<close> decodes one unit of a string literal that starts with the byte
  \<open>c\<close> (not the closing quote) and goes on with \<open>s\<close>: an escape, a plain byte
  or a UTF-8 sequence. It gives the decoded bytes and the text left.
\<close>

definition unquoteStep :: "char \<Rightarrow> string \<Rightarrow> (string \<times> string) option" where
  "unquoteStep c s =
     (if c = CHR 0x5C then
        (case s of
           [] \<Rightarrow> None
         | e # s' \<Rightarrow>
             if e = CHR ''u'' then
               (case getu4 s' of
                  None \<Rightarrow> None
                | Some rr \<Rightarrow>
                    if isSurrogate rr then
                      (case getu4esc (drop 4 s') of
                         None \<Rightarrow> Some (replacementChar, drop 4 s')
                       | Some rr1 \<Rightarrow>
                           (case decodeSurrogates rr rr1 of
                              None \<Rightarrow> Some (replacementChar, drop 4 s')
                            | Some dec \<Rightarrow> Some (encodeRune dec, drop 10 s')))
                    else Some (encodeRune rr, drop 4 s'))
             else (case escChar e of
                     None \<Rightarrow> None
                   | Some ch \<Rightarrow> Some ([ch], s')))
      else if (of_char c :: nat) < 32 then None
      else if (of_char c :: nat) < 128 then Some ([c], s)
      else if utf8Len (c # s) = 0 then Some (replacementChar, s)
      else Some (take (utf8Len (c # s)) (c # s), drop (utf8Len (c # s) - 1) s))"

lemma unquoteStep_shorter: "unquoteStep c s = Some (bs, rest) \<Longrightarrow> length rest \<le> length s"
  unfolding unquoteStep_def
  by (simp split: if_splits list.splits option.splits) auto

text \<open>
  \<open>unquote s out\<close> reads a string literal whose opening quote has been consumed:
  the decoded bytes (appended to \<open>out\<close>) and the text after the closing quote.
\<close>

function unquote :: "string \<Rightarrow> string \<Rightarrow> (string \<times> string) option" where
  "unquote [] out = None"
| "unquote (c # s) out =
     (if c = CHR 0x22 then Some (out, s)
      else (case unquoteStep c s of
              None \<Rightarrow> None
            | Some (bs, rest) \<Rightarrow> unquote rest (out @ bs)))"
  by pat_completeness auto
termination
  by (relation "measure (\<lambda>(s, out). length s)") (auto dest: unquoteStep_shorter)

declare unquote.simps [simp del]

lemma unquote_shorter: "unquote s out = Some (v, r) \<Longrightarrow> length r < length s"
proof (induction s out rule: unquote.induct)
  case (1 out)
  then show ?case by (simp add: unquote.simps)
next
  case (2 c s out)
  show ?case
  proof (cases "c = CHR 0x22")
    case True
    with "2.prems" show ?thesis by (simp add: unquote.simps)
  next
    case False
    with "2.prems" obtain bs rest where st: "unquoteStep c s = Some (bs, rest)"
      and rec: "unquote rest (out @ bs) = Some (v, r)"
      by (auto simp: unquote.simps split: option.splits)
    from "2.IH" [OF False st refl rec] have "length r < length rest" .
    with unquoteStep_shorter [OF st] show ?thesis by simp
  qed
qed

text \<open>One array element or top-level value of the accepted kinds: a string literal or \<^verbatim>\<open>null\<close>.\<close>

definition stringOrNull :: "string \<Rightarrow> (string \<times> string) option" where
  "stringOrNull s =
     (case s of
        [] \<Rightarrow> None
      | c # r \<Rightarrow>
          if c = CHR 0x22 then unquote r []
          else if take 4 s = ''null'' then Some ([], drop 4 s)
          else None)"

lemma stringOrNull_shorter: "stringOrNull s = Some (v, r) \<Longrightarrow> length r < length s"
  by (auto simp: stringOrNull_def split: list.splits if_splits dest: unquote_shorter)

definition Unmarshal_string :: "string \<Rightarrow> string option" where
  "Unmarshal_string data =
     (case stringOrNull (skipSpace data) of
        None \<Rightarrow> None
      | Some (v, rest) \<Rightarrow> if skipSpace rest = [] then Some v else None)"

text \<open>
  \<open>arrayElems s acc\<close> reads the elements of an array after its opening bracket (an
  element is expected at \<open>s\<close>); the text after the closing bracket is returned too.
\<close>

function arrayElems :: "string \<Rightarrow> string list \<Rightarrow> (string list \<times> string) option" where
  "arrayElems s acc =
     (case stringOrNull (skipSpace s) of
        None \<Rightarrow> None
      | Some (v, rest) \<Rightarrow>
          (case skipSpace rest of
             [] \<Rightarrow> None
           | c # rest' \<Rightarrow>
               if c = CHR '','' then arrayElems rest' (acc @ [v])
               else if c = CHR '']'' then Some (acc @ [v], rest')
               else None))"
  by pat_completeness auto
termination
proof (relation "measure (\<lambda>(s, acc). length s)", goal_cases)
  case 1
  then show ?case by simp
next
  case (2 s acc x v rest c rest')
  have a: "length rest < length (skipSpace s)"
    using 2 by (auto dest: stringOrNull_shorter)
  have b: "length (skipSpace s) \<le> length s"
    by (simp add: skipSpace_def length_dropWhile_le)
  have "length (c # rest') \<le> length rest"
    using 2 by (metis length_dropWhile_le skipSpace_def)
  with a b show ?case by simp
qed

declare arrayElems.simps [simp del]

definition Unmarshal_strings :: "string \<Rightarrow> string list option" where
  "Unmarshal_strings data =
     (case skipSpace data of
        [] \<Rightarrow> None
      | c # r \<Rightarrow>
          if c = CHR ''['' then
            (case skipSpace r of
               [] \<Rightarrow> None
             | c' # r' \<Rightarrow>
                 if c' = CHR '']'' then (if skipSpace r' = [] then Some [] else None)
                 else (case arrayElems r [] of
                         None \<Rightarrow> None
                       | Some (vs, rest) \<Rightarrow> if skipSpace rest = [] then Some vs else None))
          else if take 4 (c # r) = ''null'' \<and> skipSpace (drop 4 (c # r)) = [] then Some []
          else None)"

subsection \<open>\<^verbatim>\<open>uuid.NewSHA1\<close>: name-based UUIDs\<close>

text \<open>
  \<^verbatim>\<open>uuid.NewSHA1(space, data)\<close> is the version 5 UUID of RFC 4122: the first 16
  bytes of the SHA-1 digest of the namespace's bytes followed by the data, with the
  version and variant bits set. SHA-1 is written out on 32-bit words, so the
  identifier the operator assigns is a closed, executable function of the name.
\<close>

type_synonym u32 = "32 word"

definition rotl :: "nat \<Rightarrow> u32 \<Rightarrow> u32" where
  "rotl n x = push_bit n x OR drop_bit (32 - n) x"

definition sha1_f :: "nat \<Rightarrow> u32 \<Rightarrow> u32 \<Rightarrow> u32 \<Rightarrow> u32" where
  "sha1_f t b c d =
     (if t < 20 then (b AND c) OR (NOT b AND d)
      else if t < 40 then b XOR c XOR d
      else if t < 60 then (b AND c) OR (b AND d) OR (c AND d)
      else b XOR c XOR d)"

definition sha1_k :: "nat \<Rightarrow> u32" where
  "sha1_k t =
     (if t < 20 then 0x5A827999
      else if t < 40 then 0x6ED9EBA1
      else if t < 60 then 0x8F1BBCDC
      else 0xCA62C1D6)"

definition be32 :: "string \<Rightarrow> u32" where
  "be32 bs = foldl (\<lambda>acc b. push_bit 8 acc OR of_char b) 0 bs"

fun words16 :: "string \<Rightarrow> u32 list" where
  "words16 (a # b # c # d # rest) = be32 [a, b, c, d] # words16 rest"
| "words16 _ = []"

text \<open>The message schedule, newest word first: 64 words are added to the block's 16.\<close>

primrec sched :: "nat \<Rightarrow> u32 list \<Rightarrow> u32 list" where
  "sched 0 r = r"
| "sched (Suc k) r = sched k (rotl 1 (r ! 2 XOR r ! 7 XOR r ! 13 XOR r ! 15) # r)"

primrec rounds :: "u32 list \<Rightarrow> nat \<Rightarrow> u32 \<Rightarrow> u32 \<Rightarrow> u32 \<Rightarrow> u32 \<Rightarrow> u32 \<Rightarrow> u32 list" where
  "rounds [] t a b c d e = [a, b, c, d, e]"
| "rounds (w # ws) t a b c d e =
     rounds ws (Suc t) (rotl 5 a + sha1_f t b c d + e + sha1_k t + w) a (rotl 30 b) c d"

definition sha1_block :: "u32 list \<Rightarrow> string \<Rightarrow> u32 list" where
  "sha1_block h blk =
     map2 (+) h
       (rounds (rev (sched 64 (rev (words16 blk)))) 0 (h ! 0) (h ! 1) (h ! 2) (h ! 3) (h ! 4))"

primrec sha1_blocks :: "nat \<Rightarrow> u32 list \<Rightarrow> string \<Rightarrow> u32 list" where
  "sha1_blocks 0 h bs = h"
| "sha1_blocks (Suc n) h bs = sha1_blocks n (sha1_block h (take 64 bs)) (drop 64 bs)"

definition byte_of :: "u32 \<Rightarrow> char" where
  "byte_of w = char_of (unat (w AND 0xFF))"

definition bytes32 :: "u32 \<Rightarrow> string" where
  "bytes32 w = [byte_of (drop_bit 24 w), byte_of (drop_bit 16 w), byte_of (drop_bit 8 w), byte_of w]"

definition sha1_pad :: "string \<Rightarrow> string" where
  "sha1_pad m =
     m @ [CHR 0x80] @ replicate ((119 - length m mod 64) mod 64) (CHR 0x00)
       @ bytes32 (drop_bit 29 (word_of_nat (length m)))
       @ bytes32 (push_bit 3 (word_of_nat (length m)))"

definition sha1 :: "string \<Rightarrow> string" where
  "sha1 m =
     (let p = sha1_pad m in
      concat (map bytes32
        (sha1_blocks (length p div 64)
           [0x67452301, 0xEFCDAB89, 0x98BADCFE, 0x10325476, 0xC3D2E1F0] p)))"

definition NewSHA1 :: "string \<Rightarrow> string \<Rightarrow> string" where
  "NewSHA1 ns data =
     (let u = take 16 (sha1 (ns @ data)) in
      u[6 := char_of ((of_char (u ! 6) :: nat) mod 16 + 80),
        8 := char_of ((of_char (u ! 8) :: nat) mod 64 + 128)])"

definition hexdigit :: "nat \<Rightarrow> char" where
  "hexdigit n = (if n < 10 then char_of (48 + n) else char_of (87 + n))"

definition hexBytes :: "string \<Rightarrow> string" where
  "hexBytes bs = concat (map (\<lambda>b. [hexdigit (of_char b div 16), hexdigit (of_char b mod 16)]) bs)"

text \<open>\<^verbatim>\<open>UUID.String()\<close>: the form \<^verbatim>\<open>xxxxxxxx-xxxx-xxxx-xxxx-xxxxxxxxxxxx\<close>.\<close>

definition uuidString :: "string \<Rightarrow> string" where
  "uuidString u =
     hexBytes (take 4 u) @ ''-'' @ hexBytes (take 2 (drop 4 u)) @ ''-'' @ hexBytes (take 2 (drop 6 u))
       @ ''-'' @ hexBytes (take 2 (drop 8 u)) @ ''-'' @ hexBytes (drop 10 u)"

text \<open>
  \<^verbatim>\<open>var space = uuid.MustParse("73692FF6-EB42-46C2-92B6-65C45191368D")\<close>, as its
  16 bytes.
\<close>

definition space :: string where
  "space = [CHR 0x73, CHR 0x69, CHR 0x2F, CHR 0xF6, CHR 0xEB, CHR 0x42, CHR 0x46, CHR 0xC2,
            CHR 0x92, CHR 0xB6, CHR 0x65, CHR 0xC4, CHR 0x51, CHR 0x91, CHR 0x36, CHR 0x8D]"

section \<open>Objects of the store\<close>

text \<open>
  The metadata every stored object carries (\<^verbatim>\<open>metav1.ObjectMeta\<close>), as far as
  the operator reads it. Both maps may be nil.
\<close>

record ObjectMeta =
  Name :: string
  Namespace :: string
  Labels :: gomap
  Annotations :: gomap

text \<open>
  Modelled from the spec: the joined marker of an instance. The package
  \<^verbatim>\<open>controllers/tarantool\<close> with \<^verbatim>\<open>IsJoined\<close> and
  \<^verbatim>\<open>MarkJoined\<close> is not among the sources; the spec lists a ``joined marker''
  among the fields of an instance and says it is set once the instance is a member.
  It is kept as a field of its own, read by \<open>IsJoined\<close> and set by \<open>MarkJoined\<close>.
\<close>

record Pod = ObjectMeta +
  JoinedMarker :: bool

definition IsJoined :: "Pod \<Rightarrow> bool" where
  "IsJoined pod = JoinedMarker pod"

definition MarkJoined :: "Pod \<Rightarrow> Pod" where
  "MarkJoined pod = pod\<lparr>JoinedMarker := True\<rparr>"

text \<open>
  A replicaset-group (\<^verbatim>\<open>appsv1.StatefulSet\<close>): \<open>Replicas\<close> is
  \<^verbatim>\<open>*sts.Spec.Replicas\<close>, an \<^verbatim>\<open>int32\<close> the API server always fills in.
\<close>

record StatefulSet = ObjectMeta +
  Replicas :: int

section \<open>\<^verbatim>\<open>controllers/cluster_controller.go\<close>: instance identity\<close>

definition HasInstanceUUID :: "Pod \<Rightarrow> bool" where
  "HasInstanceUUID pod =
     (case mapGet (Labels pod) ''tarantool.io/instance-uuid'' of
        Some _ \<Rightarrow> True
      | None \<Rightarrow> False)"

text \<open>
  \<^verbatim>\<open>SetInstanceUUID\<close> returns its argument when the name is empty; otherwise it
  writes the label into the pod's own label map, which panics when that map is nil.
\<close>

definition SetInstanceUUID :: "Pod \<Rightarrow> panic + Pod" where
  "SetInstanceUUID pod =
     (if length (Name pod) = 0 then Inr pod
      else (case mapSet (Labels pod) ''tarantool.io/instance-uuid''
                   (uuidString (NewSHA1 space (Name pod))) of
              Inl p \<Rightarrow> Inl p
            | Inr labels \<Rightarrow> Inr (pod\<lparr>Labels := labels\<rparr>)))"

section \<open>\<^verbatim>\<open>controllers/topology/builtin.go\<close>: the topology client\<close>

subsection \<open>Role derivation\<close>

definition GetRoles :: "'a ObjectMeta_scheme \<Rightarrow> goerror + string list" where
  "GetRoles obj =
     (case mapGet (Annotations obj) ''tarantool.io/rolesToAssign'' of
        None \<Rightarrow>
          (case mapGet (Labels obj) ''tarantool.io/rolesToAssign'' of
             None \<Rightarrow> Inl (ErrNew ''role undefined'')
           | Some rolesFromLabels \<Rightarrow> Inr (Split rolesFromLabels (CHR ''.'')))
      | Some rolesFromAnnotations \<Rightarrow>
          (case Unmarshal_string rolesFromAnnotations of
             Some singleRole \<Rightarrow> Inr [singleRole]
           | None \<Rightarrow>
               (case Unmarshal_strings rolesFromAnnotations of
                  Some roleArray \<Rightarrow> Inr roleArray
                | None \<Rightarrow> Inl (ErrNew ''failed to parse roles from annotations''))))"

subsection \<open>The world outside the operator\<close>

text \<open>
  Everything the operator does to the outside is an entry of the trace, oldest first:
  requests to the topology service and writes to the object store.
\<close>

record JoinRequest =
  uri :: string
  instance_uuid :: string
  replicaset_uuid :: string
  roles :: "string list"
  vshard_group :: string

datatype call =
    JoinServer JoinRequest
  | EditReplicasetWeight string nat
  | QueryReplicasetRoles string
  | EditReplicasetRoles string "string list"
  | QueryServerStat
  | PostBootstrapVshard
  | ChangeFailover bool
  | UpdatePod Pod
  | UpdateStatefulSet StatefulSet
  | UpdateClusterStatus string

text \<open>
  The state a pass works on: the stored pods by name (in the namespace of the
  request), the stored groups by name, the stored cluster status, and the trace.
\<close>

record world =
  pods :: "string \<rightharpoonup> Pod"
  statefulsets :: "string \<rightharpoonup> StatefulSet"
  clusterState :: string
  trace :: "call list"

text \<open>The decoded responses of the topology service, with the fields the operator reads.\<close>

record JoinResponseData =
  JoinInstance :: bool

record ResponseError =
  Message :: string

record BootstrapVshardResponse =
  Data :: "bool option"
  Errors :: "ResponseError option list"

record Statistics =
  BucketsCount :: int

record ServerStat =
  Statistics :: Statistics
  UUID :: string
  URI :: string

record ServerStatData =
  Stats :: "ServerStat option list"

record ReplicasetData =
  Roles :: "string list"

datatype bootstrapReply =
    PostFailed string
  | DecodeFailed string
  | Decoded BootstrapVshardResponse

text \<open>
  What the outside answers. Every answer may depend on the number of trace entries
  made before the call, so any sequence of answers can be scripted; \<open>Inl\<close> is the
  text of the error a client call returns. In \<open>BootstrapVshardResponse\<close> the field
  \<open>Data\<close> is \<open>None\<close> when the body says \<^verbatim>\<open>"data": null\<close> (the pointer is
  then nil) and holds \<^verbatim>\<open>bootstrapVshardResponse\<close> otherwise; a \<open>None\<close> among
  \<open>Errors\<close>, \<open>Stats\<close> or the replicasets is a null array element.
\<close>

record env =
  getFault :: "nat \<Rightarrow> string \<Rightarrow> string option"
  updateFault :: "nat \<Rightarrow> string option"
  runJoin :: "nat \<Rightarrow> JoinRequest \<Rightarrow> string + JoinResponseData"
  runEditWeight :: "nat \<Rightarrow> string \<Rightarrow> nat \<Rightarrow> string + bool"
  runQueryRoles :: "nat \<Rightarrow> string \<Rightarrow> string + ReplicasetData option list"
  runEditRoles :: "nat \<Rightarrow> string \<Rightarrow> string list \<Rightarrow> string + bool"
  runServerStat :: "nat \<Rightarrow> string + ServerStatData"
  postBootstrap :: "nat \<Rightarrow> bootstrapReply"
  runFailover :: "nat \<Rightarrow> bool \<Rightarrow> string option"

definition emit :: "call \<Rightarrow> world \<Rightarrow> world" where
  "emit c w = w\<lparr>trace := trace w @ [c]\<rparr>"

text \<open>\<^verbatim>\<open>r.Get\<close> of a pod, \<^verbatim>\<open>r.Update\<close> of a pod or a group, \<^verbatim>\<open>r.Status().Update\<close>.\<close>

definition kGetPod :: "env \<Rightarrow> world \<Rightarrow> string \<Rightarrow> goerror + Pod" where
  "kGetPod e w name =
     (case getFault e (length (trace w)) name of
        Some t \<Rightarrow> Inl (ErrKube t)
      | None \<Rightarrow> (case pods w name of None \<Rightarrow> Inl ErrNotFound | Some pod \<Rightarrow> Inr pod))"

definition kUpdatePod :: "env \<Rightarrow> Pod \<Rightarrow> world \<Rightarrow> goerror option \<times> world" where
  "kUpdatePod e pod w =
     (case updateFault e (length (trace w)) of
        Some t \<Rightarrow> (Some (ErrKube t), emit (UpdatePod pod) w)
      | None \<Rightarrow> (None, (emit (UpdatePod pod) w)\<lparr>pods := (pods w)(Name pod \<mapsto> pod)\<rparr>))"

definition kUpdateSts :: "env \<Rightarrow> StatefulSet \<Rightarrow> world \<Rightarrow> goerror option \<times> world" where
  "kUpdateSts e sts w =
     (case updateFault e (length (trace w)) of
        Some t \<Rightarrow> (Some (ErrKube t), emit (UpdateStatefulSet sts) w)
      | None \<Rightarrow>
          (None, (emit (UpdateStatefulSet sts) w)
                   \<lparr>statefulsets := (statefulsets w)(Name sts \<mapsto> sts)\<rparr>))"

definition kUpdateStatus :: "env \<Rightarrow> string \<Rightarrow> world \<Rightarrow> goerror option \<times> world" where
  "kUpdateStatus e st w =
     (case updateFault e (length (trace w)) of
        Some t \<Rightarrow> (Some (ErrKube t), emit (UpdateClusterStatus st) w)
      | None \<Rightarrow> (None, (emit (UpdateClusterStatus st) w)\<lparr>clusterState := st\<rparr>))"

subsection \<open>The operations of \<^verbatim>\<open>BuiltInTopologyService\<close>\<close>

record BuiltInTopologyService =
  serviceHost :: string
  clusterID :: string

text \<open>
  The first part of \<^verbatim>\<open>Join\<close> (up to the last \<^verbatim>\<open>req.Var\<close>): the variables
  of the request, or the error returned before any request is made.
\<close>

definition joinRequest :: "BuiltInTopologyService \<Rightarrow> Pod \<Rightarrow> goerror + JoinRequest" where
  "joinRequest s pod =
     (let thisPodLabels = Labels pod;
          clusterDomainName =
            (case mapGet thisPodLabels ''tarantool.io/cluster-domain-name'' of
               None \<Rightarrow> ''cluster.local''
             | Some d \<Rightarrow> d);
          advURI = Name pod @ ''.'' @ clusterID s @ ''.'' @ Namespace pod @ ''.svc.''
                     @ clusterDomainName @ '':3301''
      in case mapGet thisPodLabels ''tarantool.io/replicaset-uuid'' of
           None \<Rightarrow> Inl (ErrNew ''replicaset uuid empty'')
         | Some replicasetUUID \<Rightarrow>
             (case mapGet thisPodLabels ''tarantool.io/instance-uuid'' of
                None \<Rightarrow> Inl (ErrNew ''instance uuid empty'')
              | Some instanceUUID \<Rightarrow>
                  (case GetRoles pod of
                     Inl err \<Rightarrow> Inl err
                   | Inr rs \<Rightarrow>
                       (case mapGet thisPodLabels ''tarantool.io/useVshardGroups'' of
                          None \<Rightarrow> Inl (ErrNew ''failed to get label tarantool.io/useVshardGroups'')
                        | Some useVshardGroups \<Rightarrow>
                            (case (if useVshardGroups = ''1''
                                   then (case mapGet thisPodLabels ''tarantool.io/vshardGroupName'' of
                                           None \<Rightarrow> Inl (ErrNew ''vshard_group undefined'')
                                         | Some g \<Rightarrow> Inr g)
                                   else Inr ''default'') of
                               Inl err \<Rightarrow> Inl err
                             | Inr vshardGroup \<Rightarrow>
                                 Inr \<lparr>uri = advURI, instance_uuid = instanceUUID,
                                      replicaset_uuid = replicasetUUID, roles = rs,
                                      vshard_group = vshardGroup\<rparr>)))))"

definition Join :: "env \<Rightarrow> BuiltInTopologyService \<Rightarrow> Pod \<Rightarrow> world \<Rightarrow> goerror option \<times> world" where
  "Join e s pod w =
     (case joinRequest s pod of
        Inl err \<Rightarrow> (Some err, w)
      | Inr req \<Rightarrow>
          (case runJoin e (length (trace w)) req of
             Inl errText \<Rightarrow>
               if Contains errText ''already joined'' then (Some ErrAlreadyJoined, emit (JoinServer req) w)
               else if Contains errText ''This instance isn't bootstrapped yet''
               then (Some ErrTopologyIsDown, emit (JoinServer req) w)
               else (Some (ErrTransport errText), emit (JoinServer req) w)
           | Inr resp \<Rightarrow>
               if JoinInstance resp then (None, emit (JoinServer req) w)
               else (Some (ErrNew ''something really bad happened''), emit (JoinServer req) w)))"

definition SetFailover :: "env \<Rightarrow> BuiltInTopologyService \<Rightarrow> bool \<Rightarrow> world \<Rightarrow> goerror option \<times> world" where
  "SetFailover e s enabled w =
     (case runFailover e (length (trace w)) enabled of
        Some t \<Rightarrow> (Some (ErrNew ''failed to enable cluster failover''), emit (ChangeFailover enabled) w)
      | None \<Rightarrow> (None, emit (ChangeFailover enabled) w))"

definition SetWeight ::
  "env \<Rightarrow> BuiltInTopologyService \<Rightarrow> string \<Rightarrow> string \<Rightarrow> world \<Rightarrow> goerror option \<times> world" where
  "SetWeight e s replicasetUUID replicaWeight w =
     (case ParseUint replicaWeight of
        Inl err \<Rightarrow> (Some err, w)
      | Inr weightParam \<Rightarrow>
          (case runEditWeight e (length (trace w)) replicasetUUID weightParam of
             Inl t \<Rightarrow> (Some (ErrTransport t), emit (EditReplicasetWeight replicasetUUID weightParam) w)
           | Inr resp \<Rightarrow>
               if resp then (None, emit (EditReplicasetWeight replicasetUUID weightParam) w)
               else (Some (ErrNew ''something really bad happened''),
                     emit (EditReplicasetWeight replicasetUUID weightParam) w)))"

definition SetReplicasetRoles ::
  "env \<Rightarrow> BuiltInTopologyService \<Rightarrow> string \<Rightarrow> string list \<Rightarrow> world \<Rightarrow> goerror option \<times> world" where
  "SetReplicasetRoles e s replicasetUUID rs w =
     (case runEditRoles e (length (trace w)) replicasetUUID rs of
        Inl t \<Rightarrow> (Some (ErrTransport t), emit (EditReplicasetRoles replicasetUUID rs) w)
      | Inr resp \<Rightarrow> (None, emit (EditReplicasetRoles replicasetUUID rs) w))"

definition GetReplicasetRolesFromService ::
  "env \<Rightarrow> BuiltInTopologyService \<Rightarrow> string \<Rightarrow> world \<Rightarrow> (panic + goerror + string list) \<times> world" where
  "GetReplicasetRolesFromService e s replicasetUUID w =
     (case runQueryRoles e (length (trace w)) replicasetUUID of
        Inl t \<Rightarrow> (Inr (Inl (ErrTransport t)), emit (QueryReplicasetRoles replicasetUUID) w)
      | Inr replicasets \<Rightarrow>
          (case replicasets of
             [] \<Rightarrow> (Inr (Inl (ErrNew (''replicaset with uuid: '' @ [CHR 0x27] @ replicasetUUID
                                        @ [CHR 0x27] @ '' not found''))),
                    emit (QueryReplicasetRoles replicasetUUID) w)
           | None # _ \<Rightarrow> (Inl NilDeref, emit (QueryReplicasetRoles replicasetUUID) w)
           | Some r0 # _ \<Rightarrow> (Inr (Inr (Roles r0)), emit (QueryReplicasetRoles replicasetUUID) w)))"

definition GetServerStat ::
  "env \<Rightarrow> BuiltInTopologyService \<Rightarrow> world \<Rightarrow> (goerror + ServerStatData) \<times> world" where
  "GetServerStat e s w =
     (case runServerStat e (length (trace w)) of
        Inl t \<Rightarrow> (Inl (ErrTransport t), emit QueryServerStat w)
      | Inr resp \<Rightarrow> (Inr resp, emit QueryServerStat w))"

definition BootstrapVshard ::
  "env \<Rightarrow> BuiltInTopologyService \<Rightarrow> world \<Rightarrow> (panic + goerror option) \<times> world" where
  "BootstrapVshard e s w =
     (case postBootstrap e (length (trace w)) of
        PostFailed t \<Rightarrow> (Inr (Some (ErrTransport t)), emit PostBootstrapVshard w)
      | DecodeFailed t \<Rightarrow> (Inr (Some (ErrTransport t)), emit PostBootstrapVshard w)
      | Decoded resp \<Rightarrow>
          (case Data resp of
             None \<Rightarrow> (Inl NilDeref, emit PostBootstrapVshard w)
           | Some bootstrapVshard \<Rightarrow>
               if bootstrapVshard then (Inr None, emit PostBootstrapVshard w)
               else (case Errors resp of
                       [] \<Rightarrow> (Inr (Some (ErrNew ''unknown error'')), emit PostBootstrapVshard w)
                     | None # _ \<Rightarrow> (Inl NilDeref, emit PostBootstrapVshard w)
                     | Some err0 # _ \<Rightarrow>
                         if Contains (Message err0) ''already bootstrapped''
                         then (Inr (Some ErrAlreadyBootstrapped), emit PostBootstrapVshard w)
                         else (Inr (Some (ErrNew (Message err0))), emit PostBootstrapVshard w))))"

section \<open>\<^verbatim>\<open>controllers/cluster_controller.go\<close>: the reconciliation pass\<close>

text \<open>
  \<^verbatim>\<open>ctrl.Result\<close>, with \<open>RequeueAfter\<close> in seconds. A loop body either goes on
  to the next iteration (\<^verbatim>\<open>continue\<close>, or falling off its end), ends the pass
  with a result and an error (\<^verbatim>\<open>return\<close>), or panics.
\<close>

record Result =
  Requeue :: bool
  RequeueAfter :: nat

datatype 'a flow =
    Continue 'a
  | Return Result "goerror option" world
  | Panic panic world

definition requeueAfter5 :: Result where
  "requeueAfter5 = \<lparr>Requeue = False, RequeueAfter = 5\<rparr>"

definition requeueNow :: Result where
  "requeueNow = \<lparr>Requeue = True, RequeueAfter = 0\<rparr>"

definition noRequeue :: Result where
  "noRequeue = \<lparr>Requeue = False, RequeueAfter = 0\<rparr>"

text \<open>A \<^verbatim>\<open>for\<close> loop over a list whose body works on the world.\<close>

fun forEach :: "('a \<Rightarrow> world \<Rightarrow> world flow) \<Rightarrow> 'a list \<Rightarrow> world \<Rightarrow> world flow" where
  "forEach body [] w = Continue w"
| "forEach body (x # xs) w =
     (case body x w of
        Continue w' \<Rightarrow> forEach body xs w'
      | Return r err w' \<Rightarrow> Return r err w'
      | Panic p w' \<Rightarrow> Panic p w')"

text \<open>
  A \<^verbatim>\<open>for ... range\<close> loop whose body also changes the element it works on: the
  annotation map of a group is shared with the list the later loops range over, so
  the groups are handed on as the body left them.
\<close>

fun forEachMap ::
  "('a \<Rightarrow> world \<Rightarrow> ('a \<times> world) flow) \<Rightarrow> 'a list \<Rightarrow> world \<Rightarrow> ('a list \<times> world) flow" where
  "forEachMap body [] w = Continue ([], w)"
| "forEachMap body (x # xs) w =
     (case body x w of
        Continue (x', w') \<Rightarrow>
          (case forEachMap body xs w' of
             Continue (xs', w'') \<Rightarrow> Continue (x' # xs', w'')
           | Return r err w'' \<Rightarrow> Return r err w''
           | Panic p w'' \<Rightarrow> Panic p w'')
      | Return r err w' \<Rightarrow> Return r err w'
      | Panic p w' \<Rightarrow> Panic p w')"

text \<open>
  The indices \<^verbatim>\<open>for i := 0; i < int(*sts.Spec.Replicas); i++\<close> runs through,
  and the name \<^verbatim>\<open>fmt.Sprintf("%s-%d", sts.GetName(), i)\<close> of the \<open>i\<close>-th pod.
\<close>

definition replicaIndices :: "StatefulSet \<Rightarrow> nat list" where
  "replicaIndices sts = [0..<nat (Replicas sts)]"

definition podName :: "StatefulSet \<Rightarrow> nat \<Rightarrow> string" where
  "podName sts i = Name sts @ ''-'' @ itoa i"

subsection \<open>Instance identity and join (lines 293 to 367)\<close>

definition uuidStep :: "env \<Rightarrow> StatefulSet \<Rightarrow> nat \<Rightarrow> world \<Rightarrow> world flow" where
  "uuidStep e sts i w =
     (case kGetPod e w (podName sts i) of
        Inl err \<Rightarrow>
          if err = ErrNotFound then Return requeueAfter5 None w
          else Return requeueAfter5 (Some err) w
      | Inr pod \<Rightarrow>
          if HasInstanceUUID pod then Continue w
          else (case SetInstanceUUID pod of
                  Inl p \<Rightarrow> Panic p w
                | Inr pod' \<Rightarrow>
                    (case kUpdatePod e pod' w of
                       (Some err, w') \<Rightarrow> Return requeueAfter5 (Some err) w'
                     | (None, w') \<Rightarrow> Return requeueNow None w')))"

definition joinStep ::
  "env \<Rightarrow> BuiltInTopologyService \<Rightarrow> StatefulSet \<Rightarrow> nat \<Rightarrow> world \<Rightarrow> world flow" where
  "joinStep e topologyClient sts i w =
     (case kGetPod e w (podName sts i) of
        Inl err \<Rightarrow>
          if err = ErrNotFound then Return requeueAfter5 None w
          else Return requeueAfter5 (Some err) w
      | Inr pod \<Rightarrow>
          if IsJoined pod then Continue w
          else (case Join e topologyClient pod w of
                  (Some err, w1) \<Rightarrow>
                    if IsAlreadyJoined err then
                      (case kUpdatePod e (MarkJoined pod) w1 of
                         (Some err', w2) \<Rightarrow> Return requeueAfter5 (Some err') w2
                       | (None, w2) \<Rightarrow> Continue w2)
                    else if IsTopologyDown err then Continue w1
                    else Return requeueAfter5 None w1
                | (None, w1) \<Rightarrow>
                    (case kUpdatePod e (MarkJoined pod) w1 of
                       (Some err', w2) \<Rightarrow> Return requeueAfter5 (Some err') w2
                     | (None, w2) \<Rightarrow> Return requeueAfter5 None w2)))"

text \<open>The body of the first loop over the groups: both inner loops, one after the other.\<close>

definition instanceStep ::
  "env \<Rightarrow> BuiltInTopologyService \<Rightarrow> StatefulSet \<Rightarrow> world \<Rightarrow> world flow" where
  "instanceStep e topologyClient sts w =
     (case forEach (uuidStep e sts) (replicaIndices sts) w of
        Continue w1 \<Rightarrow> forEach (joinStep e topologyClient sts) (replicaIndices sts) w1
      | Return r err w1 \<Rightarrow> Return r err w1
      | Panic p w1 \<Rightarrow> Panic p w1)"

subsection \<open>Weight (lines 369 to 424)\<close>

text \<open>
  The loop over \<^verbatim>\<open>data.Stats\<close>: every entry whose address starts with the
  group's name and whose bucket count is zero sets the annotation and writes the
  group; a failed write is only logged.
\<close>

fun bucketsLoop ::
  "env \<Rightarrow> ServerStat option list \<Rightarrow> StatefulSet \<Rightarrow> world \<Rightarrow> (StatefulSet \<times> world) flow" where
  "bucketsLoop e [] sts w = Continue (sts, w)"
| "bucketsLoop e (st # rest) sts w =
     (case st of
        None \<Rightarrow> Panic NilDeref w
      | Some stat \<Rightarrow>
          if HasPrefix (URI stat) (Name sts) then
            (if BucketsCount (Statistics stat) = 0 then
               (case mapSet (Annotations sts) ''tarantool.io/scheduledDelete'' ''1'' of
                  Inl p \<Rightarrow> Panic p w
                | Inr stsAnnotations \<Rightarrow>
                    bucketsLoop e rest (sts\<lparr>Annotations := stsAnnotations\<rparr>)
                      (snd (kUpdateSts e (sts\<lparr>Annotations := stsAnnotations\<rparr>) w)))
             else bucketsLoop e rest sts w)
          else bucketsLoop e rest sts w)"

definition drainCheck ::
  "env \<Rightarrow> BuiltInTopologyService \<Rightarrow> StatefulSet \<Rightarrow> world \<Rightarrow> (StatefulSet \<times> world) flow" where
  "drainCheck e topologyClient sts w =
     (case GetServerStat e topologyClient w of
        (Inl err, w1) \<Rightarrow> Continue (sts, w1)
      | (Inr data, w1) \<Rightarrow> bucketsLoop e (Stats data) sts w1)"

definition joinedStep :: "env \<Rightarrow> StatefulSet \<Rightarrow> nat \<Rightarrow> world \<Rightarrow> world flow" where
  "joinedStep e sts i w =
     (case kGetPod e w (podName sts i) of
        Inl err \<Rightarrow>
          if err = ErrNotFound then Return requeueAfter5 None w
          else Return requeueAfter5 (Some err) w
      | Inr pod \<Rightarrow>
          if \<not> IsJoined pod then Return requeueAfter5 None w
          else Continue w)"

definition weightStep ::
  "env \<Rightarrow> BuiltInTopologyService \<Rightarrow> StatefulSet \<Rightarrow> world \<Rightarrow> (StatefulSet \<times> world) flow" where
  "weightStep e topologyClient sts w =
     (let weight = mapIndex (Annotations sts) ''tarantool.io/replicaset-weight'' in
      case (if weight = ''0'' then drainCheck e topologyClient sts w else Continue (sts, w)) of
        Continue (sts1, w1) \<Rightarrow>
          (case forEach (joinedStep e sts1) (replicaIndices sts1) w1 of
             Continue w2 \<Rightarrow>
               (case SetWeight e topologyClient
                       (mapIndex (Labels sts1) ''tarantool.io/replicaset-uuid'') weight w2 of
                  (Some err, w3) \<Rightarrow> Return requeueAfter5 (Some err) w3
                | (None, w3) \<Rightarrow> Continue (sts1, w3))
           | Return r err w2 \<Rightarrow> Return r err w2
           | Panic p w2 \<Rightarrow> Panic p w2)
      | Return r err w1 \<Rightarrow> Return r err w1
      | Panic p w1 \<Rightarrow> Panic p w1)"

subsection \<open>Roles (lines 426 to 451)\<close>

text \<open>
  Modelled from the spec: \<^verbatim>\<open>utils.IsRolesEquals\<close> is not among the sources; the
  spec says role sets are compared as unordered collections.
\<close>

definition IsRolesEquals :: "string list \<Rightarrow> string list \<Rightarrow> bool" where
  "IsRolesEquals actual desired = (set actual = set desired)"

definition rolesStep ::
  "env \<Rightarrow> BuiltInTopologyService \<Rightarrow> StatefulSet \<Rightarrow> world \<Rightarrow> world flow" where
  "rolesStep e topologyClient sts w =
     (let replicasetUUID = mapIndex (Labels sts) ''tarantool.io/replicaset-uuid'' in
      case GetReplicasetRolesFromService e topologyClient replicasetUUID w of
        (Inl p, w1) \<Rightarrow> Panic p w1
      | (Inr (Inl err), w1) \<Rightarrow> Return requeueAfter5 (Some err) w1
      | (Inr (Inr actualRoles), w1) \<Rightarrow>
          (case GetRoles sts of
             Inl err \<Rightarrow> Return requeueAfter5 (Some err) w1
           | Inr desireRoles \<Rightarrow>
               if IsRolesEquals actualRoles desireRoles then Continue w1
               else (case SetReplicasetRoles e topologyClient replicasetUUID desireRoles w1 of
                       (Some err, w2) \<Rightarrow> Return requeueAfter5 (Some err) w2
                     | (None, w2) \<Rightarrow> Continue w2)))"

subsection \<open>Bootstrap and failover (lines 453 to 498)\<close>

definition bootstrapStep ::
  "env \<Rightarrow> BuiltInTopologyService \<Rightarrow> StatefulSet \<Rightarrow> world \<Rightarrow> world flow" where
  "bootstrapStep e topologyClient sts w =
     (let stsAnnotations = Annotations sts in
      case (if mapIndex stsAnnotations ''tarantool.io/isBootstrapped'' \<noteq> ''1'' then
              (case BootstrapVshard e topologyClient w of
                 (Inl p, w1) \<Rightarrow> Panic p w1
               | (Inr (Some err), w1) \<Rightarrow>
                   if IsAlreadyBootstrapped err then
                     (case mapSet stsAnnotations ''tarantool.io/isBootstrapped'' ''1'' of
                        Inl p \<Rightarrow> Panic p w1
                      | Inr ann \<Rightarrow>
                          (case kUpdateStatus e ''Ready''
                                  (snd (kUpdateSts e (sts\<lparr>Annotations := ann\<rparr>) w1)) of
                             (Some err', w3) \<Rightarrow> Return requeueAfter5 (Some err') w3
                           | (None, w3) \<Rightarrow> Return requeueAfter5 None w3))
                   else Return requeueAfter5 (Some err) w1
               | (Inr None, w1) \<Rightarrow> Continue w1)
            else Continue w) of
        Continue w1 \<Rightarrow>
          if mapIndex stsAnnotations ''tarantool.io/failoverEnabled'' = ''1'' then Continue w1
          else (case SetFailover e topologyClient True w1 of
                  (Some err, w2) \<Rightarrow> Continue w2
                | (None, w2) \<Rightarrow>
                    (case mapSet stsAnnotations ''tarantool.io/failoverEnabled'' ''1'' of
                       Inl p \<Rightarrow> Panic p w2
                     | Inr ann \<Rightarrow> Continue (snd (kUpdateSts e (sts\<lparr>Annotations := ann\<rparr>) w2))))
      | Return r err w1 \<Rightarrow> Return r err w1
      | Panic p w1 \<Rightarrow> Panic p w1)"

subsection \<open>The pass\<close>

text \<open>
  \<^verbatim>\<open>Reconcile\<close> from the point where the groups have been listed and the
  topology client has been built (line 293) to its end. The steps before that point
  (fetching the cluster, taking ownership of roles, the cluster-wide service, the
  topology leader) either end the pass or hand over \<^verbatim>\<open>stsList.Items\<close> and
  \<^verbatim>\<open>topologyClient\<close>, the arguments here.
\<close>

definition Reconcile ::
  "env \<Rightarrow> BuiltInTopologyService \<Rightarrow> StatefulSet list \<Rightarrow> world \<Rightarrow> world flow" where
  "Reconcile e topologyClient items w =
     (case forEach (instanceStep e topologyClient) items w of
        Continue w1 \<Rightarrow>
          (case forEachMap (weightStep e topologyClient) items w1 of
             Continue (items', w2) \<Rightarrow>
               (case forEach (rolesStep e topologyClient) items' w2 of
                  Continue w3 \<Rightarrow>
                    (case forEach (bootstrapStep e topologyClient) items' w3 of
                       Continue w4 \<Rightarrow> Return noRequeue None w4
                     | Return r err w4 \<Rightarrow> Return r err w4
                     | Panic p w4 \<Rightarrow> Panic p w4)
                | Return r err w3 \<Rightarrow> Return r err w3
                | Panic p w3 \<Rightarrow> Panic p w3)
           | Return r err w2 \<Rightarrow> Return r err w2
           | Panic p w2 \<Rightarrow> Panic p w2)
      | Return r err w1 \<Rightarrow> Return r err w1
      | Panic p w1 \<Rightarrow> Panic p w1)"

text \<open>The world a loop or the pass ends in.\<close>

definition endWorld :: "world flow \<Rightarrow> world" where
  "endWorld f = (case f of Continue w \<Rightarrow> w | Return r err w \<Rightarrow> w | Panic p w \<Rightarrow> w)"

section \<open>Properties\<close>

subsection \<open>Instance identity\<close>

text \<open>
  C10. A pod whose name is empty comes back from \<^verbatim>\<open>SetInstanceUUID\<close> as it went
  in: no label is added, no panic is raised (even on a nil label map), and no other
  field changes.
\<close>

theorem SetInstanceUUID_empty_name:
  "Name pod = [] \<Longrightarrow> SetInstanceUUID pod = Inr pod"
  by (simp add: SetInstanceUUID_def)

theorem SetInstanceUUID_empty_name_witness:
  "Name \<lparr>Name = [], Namespace = ''default'', Labels = None, Annotations = None, JoinedMarker = False\<rparr> = []
   \<and> SetInstanceUUID \<lparr>Name = [], Namespace = ''default'', Labels = None, Annotations = None, JoinedMarker = False\<rparr>
       = Inr \<lparr>Name = [], Namespace = ''default'', Labels = None, Annotations = None, JoinedMarker = False\<rparr>"
  using SetInstanceUUID_empty_name
    [of "\<lparr>Name = [], Namespace = ''default'', Labels = None, Annotations = None, JoinedMarker = False\<rparr>"]
  by simp

text \<open>
  C9. The label \<^verbatim>\<open>SetInstanceUUID\<close> writes is the version 5 UUID of the pod's
  name under the fixed namespace \<open>space\<close>, so two pods of the same (non-empty) name
  get the same value whatever else they hold, and applying the function to its own
  result changes nothing.
\<close>

definition podA :: Pod where
  "podA = \<lparr>Name = ''rs-A-0'', Namespace = ''default'', Labels = Some Map.empty,
           Annotations = None, JoinedMarker = False\<rparr>"

definition podA' :: Pod where
  "podA' = \<lparr>Name = ''rs-A-0'', Namespace = ''other'', Labels = Some [''app'' \<mapsto> ''db''],
            Annotations = Some Map.empty, JoinedMarker = True\<rparr>"

theorem SetInstanceUUID_deterministic:
  "SetInstanceUUID p = Inr p' \<Longrightarrow>
     SetInstanceUUID p' = Inr p'
     \<and> (Name p \<noteq> [] \<longrightarrow>
          mapGet (Labels p') ''tarantool.io/instance-uuid''
            = Some (uuidString (NewSHA1 space (Name p))))
     \<and> (Name p \<noteq> [] \<longrightarrow> SetInstanceUUID q = Inr q' \<longrightarrow> Name q = Name p \<longrightarrow>
          mapGet (Labels q') ''tarantool.io/instance-uuid''
            = mapGet (Labels p') ''tarantool.io/instance-uuid'')"
  by (auto simp: SetInstanceUUID_def mapSet_def mapGet_def split: option.splits if_splits)

theorem SetInstanceUUID_deterministic_witness:
  "SetInstanceUUID podA
     = Inr (podA\<lparr>Labels := Some [''tarantool.io/instance-uuid'' \<mapsto> uuidString (NewSHA1 space ''rs-A-0'')]\<rparr>)
   \<and> SetInstanceUUID podA'
     = Inr (podA'\<lparr>Labels := Some [''app'' \<mapsto> ''db'',
              ''tarantool.io/instance-uuid'' \<mapsto> uuidString (NewSHA1 space ''rs-A-0'')]\<rparr>)
   \<and> Name podA' = Name podA \<and> Name podA \<noteq> []
   \<and> SetInstanceUUID (podA\<lparr>Labels := Some [''tarantool.io/instance-uuid'' \<mapsto> uuidString (NewSHA1 space ''rs-A-0'')]\<rparr>)
     = Inr (podA\<lparr>Labels := Some [''tarantool.io/instance-uuid'' \<mapsto> uuidString (NewSHA1 space ''rs-A-0'')]\<rparr>)
   \<and> mapGet (Labels (podA'\<lparr>Labels := Some [''app'' \<mapsto> ''db'',
              ''tarantool.io/instance-uuid'' \<mapsto> uuidString (NewSHA1 space ''rs-A-0'')]\<rparr>))
         ''tarantool.io/instance-uuid''
     = mapGet (Labels (podA\<lparr>Labels := Some [''tarantool.io/instance-uuid'' \<mapsto> uuidString (NewSHA1 space ''rs-A-0'')]\<rparr>))
         ''tarantool.io/instance-uuid''"
proof -
  have a: "SetInstanceUUID podA
     = Inr (podA\<lparr>Labels := Some [''tarantool.io/instance-uuid'' \<mapsto> uuidString (NewSHA1 space ''rs-A-0'')]\<rparr>)"
    by (simp add: SetInstanceUUID_def podA_def mapSet_def)
  have b: "SetInstanceUUID podA'
     = Inr (podA'\<lparr>Labels := Some [''app'' \<mapsto> ''db'',
              ''tarantool.io/instance-uuid'' \<mapsto> uuidString (NewSHA1 space ''rs-A-0'')]\<rparr>)"
    by (simp add: SetInstanceUUID_def podA'_def mapSet_def)
  have c: "Name podA' = Name podA" "Name podA \<noteq> []"
    by (simp_all add: podA_def podA'_def)
  from SetInstanceUUID_deterministic [OF a, of podA'] b c a show ?thesis
    by (simp add: mapGet_def podA_def)
qed

subsection \<open>The topology client\<close>

text \<open>
  C7. A weight that is not a non-empty string of decimal digits never reaches the
  service: \<^verbatim>\<open>SetWeight\<close> returns the parse error of
  \<^verbatim>\<open>strconv.ParseUint\<close> and the world, its trace included, is as before.
\<close>

definition isDecimal :: "string \<Rightarrow> bool" where
  "isDecimal s = (s \<noteq> [] \<and> list_all isDigit s)"

lemma parseUintLoop_nondigit:
  "\<not> list_all isDigit s \<Longrightarrow> \<exists>err. parseUintLoop s n = Inl err"
  by (induction s arbitrary: n) (auto simp: Let_def)

lemma ParseUint_not_decimal:
  "\<not> isDecimal s \<Longrightarrow> \<exists>err. ParseUint s = Inl (ErrNum s err)"
  using parseUintLoop_nondigit [of s 0] by (auto simp: ParseUint_def isDecimal_def)

theorem SetWeight_rejects_non_numeric:
  "\<not> isDecimal replicaWeight \<Longrightarrow>
     \<exists>err. SetWeight e s replicasetUUID replicaWeight w = (Some (ErrNum replicaWeight err), w)"
  using ParseUint_not_decimal [of replicaWeight] by (auto simp: SetWeight_def)

theorem SetWeight_rejects_non_numeric_witness:
  "\<not> isDecimal ''abc''
   \<and> (\<forall>e s u w. SetWeight e s u ''abc'' w = (Some (ErrNum ''abc'' ErrSyntax), w))"
proof -
  have a: "\<not> isDecimal ''abc''"
    by (simp add: isDecimal_def isDigit_def)
  have "SetWeight e s u ''abc'' w = (Some (ErrNum ''abc'' ErrSyntax), w)" for e s u w
    using SetWeight_rejects_non_numeric [OF a, of e s u w]
    by (simp add: SetWeight_def ParseUint_def isDigit_def)
  with a show ?thesis by simp
qed

subsection \<open>Scenarios\<close>

text \<open>
  The concrete objects the statements below are evaluated on: a topology client, a
  store that answers and a service that accepts every request, and the pods of a
  group in the three states of an instance (new, with its identifier, joined).
\<close>

definition clientA :: BuiltInTopologyService where
  "clientA = \<lparr>serviceHost = ''http://rs-A-0.cluster.default.svc.cluster.local:8081/admin/api'',
              clusterID = ''cluster''\<rparr>"

definition baseLabels :: "string \<rightharpoonup> string" where
  "baseLabels =
     [''tarantool.io/replicaset-uuid'' \<mapsto> ''11111111-1111-1111-1111-111111111111'',
      ''tarantool.io/rolesToAssign'' \<mapsto> ''storage'',
      ''tarantool.io/useVshardGroups'' \<mapsto> ''0'']"

definition newPod :: "string \<Rightarrow> Pod" where
  "newPod name =
     \<lparr>Name = name, Namespace = ''default'', Labels = Some baseLabels,
      Annotations = None, JoinedMarker = False\<rparr>"

definition assignedPod :: "string \<Rightarrow> Pod" where
  "assignedPod name =
     (newPod name)\<lparr>Labels := Some (baseLabels(''tarantool.io/instance-uuid'' \<mapsto>
                                    uuidString (NewSHA1 space name)))\<rparr>"

definition joinedPod :: "string \<Rightarrow> Pod" where
  "joinedPod name = MarkJoined (assignedPod name)"

definition quietEnv :: env where
  "quietEnv =
     \<lparr>getFault = (\<lambda>k name. None),
      updateFault = (\<lambda>k. None),
      runJoin = (\<lambda>k req. Inr \<lparr>JoinInstance = True\<rparr>),
      runEditWeight = (\<lambda>k u n. Inr True),
      runQueryRoles = (\<lambda>k u. Inr [Some \<lparr>Roles = [''storage'']\<rparr>]),
      runEditRoles = (\<lambda>k u rs. Inr True),
      runServerStat = (\<lambda>k. Inr \<lparr>Stats = []\<rparr>),
      postBootstrap = (\<lambda>k. Decoded \<lparr>Data = Some True, Errors = []\<rparr>),
      runFailover = (\<lambda>k enabled. None)\<rparr>"

definition joinFails :: "string \<Rightarrow> env" where
  "joinFails t = quietEnv\<lparr>runJoin := (\<lambda>k req. Inl t)\<rparr>"

definition joinRequestOf :: "string \<Rightarrow> JoinRequest" where
  "joinRequestOf name =
     \<lparr>uri = name @ ''.cluster.default.svc.cluster.local:3301'',
      instance_uuid = uuidString (NewSHA1 space name),
      replicaset_uuid = ''11111111-1111-1111-1111-111111111111'',
      roles = [''storage''], vshard_group = ''default''\<rparr>"

lemma assignedPod_request [simp]:
  "joinRequest clientA (assignedPod name) = Inr (joinRequestOf name)"
  by (simp add: joinRequest_def assignedPod_def newPod_def baseLabels_def clientA_def mapGet_def
      GetRoles_def joinRequestOf_def)

subsection \<open>Error classification\<close>










subsection \<open>Role derivation\<close>

text \<open>
  The JSON texts of RFC 8259 that \<^verbatim>\<open>GetRoles\<close> can meet in the annotation, written
  as the grammar writes them and independently of the decoder. White space is a run of
  the four blank characters. The characters between the quotes of a string are
  unescaped bytes from 0x20 on other than the quote and the backslash, a backslash
  followed by one of \<^verbatim>\<open>" \ / b f n r t\<close>, or \<^verbatim>\<open>\u\<close> followed by four
  hexadecimal digits.
\<close>

definition blank :: "string \<Rightarrow> bool" where
  "blank t = list_all isSpace t"

definition hexDigit :: "char \<Rightarrow> bool" where
  "hexDigit c =
     (let n = (of_char c :: nat) in (48 \<le> n \<and> n \<le> 57) \<or> (97 \<le> n \<and> n \<le> 102) \<or> (65 \<le> n \<and> n \<le> 70))"

definition escapable :: "char \<Rightarrow> bool" where
  "escapable e = (e \<in> set [CHR 0x22, CHR 0x5C, CHR ''/'', CHR ''b'', CHR ''f'', CHR ''n'', CHR ''r'', CHR ''t''])"

fun validChars :: "string \<Rightarrow> bool" where
  "validChars [] = True"
| "validChars (c # t) =
     (if c = CHR 0x5C then
        (case t of
           [] \<Rightarrow> False
         | e # t' \<Rightarrow>
             if e = CHR ''u'' then
               (case t' of
                  h1 # h2 # h3 # h4 # t'' \<Rightarrow>
                    hexDigit h1 \<and> hexDigit h2 \<and> hexDigit h3 \<and> hexDigit h4 \<and> validChars t''
                | _ \<Rightarrow> False)
             else escapable e \<and> validChars t')
      else c \<noteq> CHR 0x22 \<and> 32 \<le> (of_char c :: nat) \<and> validChars t)"

definition jsonQuote :: "string \<Rightarrow> string" where
  "jsonQuote b = CHR 0x22 # b @ [CHR 0x22]"

text \<open>
  A text is a string (\<open>stringText\<close>), the literal \<^verbatim>\<open>null\<close> (\<open>nullText\<close>) or an array
  (\<open>arrayText\<close>), with white space around it. An element of an array is a string (given
  by the characters between its quotes) or \<^verbatim>\<open>null\<close> (\<open>None\<close>), with white space
  before and after it; the elements are separated by commas.
\<close>

definition stringText :: "string \<Rightarrow> string \<Rightarrow> string \<Rightarrow> string" where
  "stringText w1 b w2 = w1 @ jsonQuote b @ w2"

definition nullText :: "string \<Rightarrow> string \<Rightarrow> string" where
  "nullText w1 w2 = w1 @ ''null'' @ w2"

definition arrayText :: "string \<Rightarrow> string \<Rightarrow> string \<Rightarrow> string" where
  "arrayText w0 inner w2 = w0 @ ''['' @ inner @ '']'' @ w2"

definition elemText :: "string option \<Rightarrow> string" where
  "elemText el = (case el of Some b \<Rightarrow> jsonQuote b | None \<Rightarrow> ''null'')"

definition okElem :: "string option \<Rightarrow> bool" where
  "okElem el = (case el of Some b \<Rightarrow> validChars b | None \<Rightarrow> True)"

type_synonym item = "string \<times> string option \<times> string"

fun itemText :: "item \<Rightarrow> string" where
  "itemText (w, el, w') = w @ elemText el @ w'"

fun okItem :: "item \<Rightarrow> bool" where
  "okItem (w, el, w') = (blank w \<and> okElem el \<and> blank w')"

fun itemsText :: "item list \<Rightarrow> string" where
  "itemsText [] = []"
| "itemsText [x] = itemText x"
| "itemsText (x # y # r) = itemText x @ '','' @ itemsText (y # r)"

text \<open>
  What a string denotes, for the strings that are well-formed Unicode: a string is a
  sequence of unescaped ASCII characters, unescaped characters outside ASCII in
  well-formed UTF-8, two-character escapes, \<^verbatim>\<open>\u\<close> escapes of a code point that is
  not a surrogate, and pairs of \<^verbatim>\<open>\u\<close> escapes that form a surrogate pair. The
  string denoted is the UTF-8 encoding of the code points.
\<close>

datatype jsonChar =
    Plain char
  | Wide string
  | Escaped char
  | Unicode string
  | Surrogates string string

definition hexValue :: "char \<Rightarrow> nat" where
  "hexValue c =
     (let n = (of_char c :: nat) in if n \<le> 57 then n - 48 else if n \<le> 70 then n - 55 else n - 87)"

definition hexNumber :: "string \<Rightarrow> nat" where
  "hexNumber hs = foldl (\<lambda>n c. n * 16 + hexValue c) 0 hs"

definition hex4 :: "string \<Rightarrow> bool" where
  "hex4 hs = (length hs = 4 \<and> list_all hexDigit hs)"

definition unescape :: "char \<Rightarrow> char" where
  "unescape e =
     (if e = CHR ''b'' then CHR 0x08
      else if e = CHR ''f'' then CHR 0x0C
      else if e = CHR ''n'' then CHR 0x0A
      else if e = CHR ''r'' then CHR 0x0D
      else if e = CHR ''t'' then CHR 0x09
      else e)"

definition utf8 :: "nat \<Rightarrow> string" where
  "utf8 r =
     (if r < 128 then [char_of r]
      else if r < 2048 then [char_of (192 + r div 64), char_of (128 + r mod 64)]
      else if r < 65536 then
        [char_of (224 + r div 4096), char_of (128 + r div 64 mod 64), char_of (128 + r mod 64)]
      else [char_of (240 + r div 262144), char_of (128 + r div 4096 mod 64),
            char_of (128 + r div 64 mod 64), char_of (128 + r mod 64)])"

fun wellFormedUTF8 :: "string \<Rightarrow> bool" where
  "wellFormedUTF8 [c0, c1] = (194 \<le> (of_char c0 :: nat) \<and> (of_char c0 :: nat) \<le> 223 \<and> isCont c1)"
| "wellFormedUTF8 [c0, c1, c2] =
     (224 \<le> (of_char c0 :: nat) \<and> (of_char c0 :: nat) \<le> 239 \<and> isCont c1 \<and> isCont c2
      \<and> (if (of_char c0 :: nat) = 224 then 160 \<le> (of_char c1 :: nat) else True)
      \<and> (if (of_char c0 :: nat) = 237 then (of_char c1 :: nat) < 160 else True))"
| "wellFormedUTF8 [c0, c1, c2, c3] =
     (240 \<le> (of_char c0 :: nat) \<and> (of_char c0 :: nat) \<le> 244 \<and> isCont c1 \<and> isCont c2 \<and> isCont c3
      \<and> (if (of_char c0 :: nat) = 240 then 144 \<le> (of_char c1 :: nat) else True)
      \<and> (if (of_char c0 :: nat) = 244 then (of_char c1 :: nat) < 144 else True))"
| "wellFormedUTF8 _ = False"

fun renderChar :: "jsonChar \<Rightarrow> string" where
  "renderChar (Plain c) = [c]"
| "renderChar (Wide u) = u"
| "renderChar (Escaped e) = [CHR 0x5C, e]"
| "renderChar (Unicode hs) = CHR 0x5C # CHR ''u'' # hs"
| "renderChar (Surrogates hi lo) = CHR 0x5C # CHR ''u'' # hi @ CHR 0x5C # CHR ''u'' # lo"

fun charValue :: "jsonChar \<Rightarrow> string" where
  "charValue (Plain c) = [c]"
| "charValue (Wide u) = u"
| "charValue (Escaped e) = [unescape e]"
| "charValue (Unicode hs) = utf8 (hexNumber hs)"
| "charValue (Surrogates hi lo) =
     utf8 (65536 + (hexNumber hi - 55296) * 1024 + (hexNumber lo - 56320))"

fun okChar :: "jsonChar \<Rightarrow> bool" where
  "okChar (Plain c) =
     (32 \<le> (of_char c :: nat) \<and> (of_char c :: nat) < 128 \<and> c \<noteq> CHR 0x22 \<and> c \<noteq> CHR 0x5C)"
| "okChar (Wide u) = wellFormedUTF8 u"
| "okChar (Escaped e) = escapable e"
| "okChar (Unicode hs) = (hex4 hs \<and> \<not> (55296 \<le> hexNumber hs \<and> hexNumber hs < 57344))"
| "okChar (Surrogates hi lo) =
     (hex4 hi \<and> hex4 lo \<and> 55296 \<le> hexNumber hi \<and> hexNumber hi < 56320
      \<and> 56320 \<le> hexNumber lo \<and> hexNumber lo < 57344)"

definition renderChars :: "jsonChar list \<Rightarrow> string" where
  "renderChars cs = concat (map renderChar cs)"

definition charsValue :: "jsonChar list \<Rightarrow> string" where
  "charsValue cs = concat (map charValue cs)"

type_synonym roleItem = "string \<times> jsonChar list option \<times> string"

fun plainItem :: "roleItem \<Rightarrow> item" where
  "plainItem (w, el, w') = (w, map_option renderChars el, w')"

fun roleOf :: "roleItem \<Rightarrow> string" where
  "roleOf (w, el, w') = (case el of Some cs \<Rightarrow> charsValue cs | None \<Rightarrow> [])"

fun okRoleItem :: "roleItem \<Rightarrow> bool" where
  "okRoleItem (w, el, w') =
     (blank w \<and> blank w' \<and> (case el of Some cs \<Rightarrow> list_all okChar cs | None \<Rightarrow> True))"

text \<open>
  The string the decoder reads from the characters of a valid literal, whatever follows
  the closing quote; it is the string denoted when the literal is well-formed Unicode
  (\<open>literalValue_chars\<close> below).
\<close>

definition literalValue :: "string \<Rightarrow> string" where
  "literalValue b = (case unquote (b @ [CHR 0x22]) [] of Some (v, r) \<Rightarrow> v | None \<Rightarrow> [])"

definition elemValue :: "string option \<Rightarrow> string" where
  "elemValue el = (case el of Some b \<Rightarrow> literalValue b | None \<Rightarrow> [])"

fun itemValue :: "item \<Rightarrow> string" where
  "itemValue (w, el, w') = elemValue el"

definition metaWith :: "gomap \<Rightarrow> gomap \<Rightarrow> ObjectMeta" where
  "metaWith labels annotations =
     \<lparr>Name = ''rs-A'', Namespace = ''default'', Labels = labels, Annotations = annotations\<rparr>"

text \<open>The decoder of string literals accepts exactly the valid sequences of characters.\<close>

lemma hexVal_hexDigit: "(hexVal c \<noteq> None) = hexDigit c"
  by (auto simp: hexVal_def hexDigit_def Let_def)

lemma hexVal_Some: "hexDigit c \<Longrightarrow> \<exists>n. hexVal c = Some n"
  using hexVal_hexDigit [of c] by auto

lemma escChar_escapable: "(escChar e \<noteq> None) = escapable e"
  by (auto simp: escChar_def escapable_def)

lemma blank_append [simp]: "blank (a @ b) = (blank a \<and> blank b)"
  by (simp add: blank_def)

lemma blank_Nil [simp]: "blank []"
  by (simp add: blank_def)

lemma skipSpace_blank: "blank w \<Longrightarrow> skipSpace (w @ t) = skipSpace t"
  by (induction w) (auto simp: blank_def skipSpace_def)

lemma skipSpace_empty: "(skipSpace t = []) = blank t"
  by (induction t) (auto simp: blank_def skipSpace_def)

lemma blank_takeWhile: "blank (takeWhile isSpace t)"
  by (induction t) (simp_all add: blank_def)

lemma skipSpace_split: "\<exists>w. blank w \<and> t = w @ skipSpace t"
proof -
  have "t = takeWhile isSpace t @ skipSpace t"
    by (simp add: skipSpace_def)
  with blank_takeWhile [of t] show ?thesis by blast
qed

lemma skipSpace_nonspace: "\<not> isSpace c \<Longrightarrow> skipSpace (c # t) = c # t"
  by (simp add: skipSpace_def)

lemma skipSpace_head: "skipSpace t = c # r \<Longrightarrow> \<not> isSpace c"
  using hd_dropWhile [of isSpace t] by (simp add: skipSpace_def)

lemma isCont_high: "isCont c \<Longrightarrow> 128 \<le> (of_char c :: nat)"
  by (simp add: isCont_def)

lemma validChars_high: "128 \<le> (of_char c :: nat) \<Longrightarrow> validChars (c # t) = validChars t"
  by auto

lemma not_isCont_quote: "\<not> isCont (CHR 0x22)"
  by (simp add: isCont_def)

lemma list3_cases:
  obtains "b = []" | x where "b = [x]" | x y where "b = [x, y]" | x y z r where "b = x # y # z # r"
  by (metis list.exhaust)

lemma utf8Len_conts:
  assumes "utf8Len (c # s) = n" "0 < n"
  shows "n - 1 \<le> length s \<and> list_all isCont (take (n - 1) s) \<and> 2 \<le> n \<and> 128 \<le> (of_char c :: nat)"
  using assms by (cases s rule: list3_cases) (auto simp: utf8Len_def Let_def split: if_splits)

lemma utf8Len_indep:
  "utf8Len (c # b @ CHR 0x22 # rest) = utf8Len (c # b @ [CHR 0x22])"
  by (cases b rule: list3_cases; cases rest rule: list3_cases)
     (simp_all add: utf8Len_def Let_def isCont_def)

lemma validChars_drop_conts:
  "list_all isCont (take k t) \<Longrightarrow> k \<le> length t \<Longrightarrow> validChars (drop k t) = validChars t"
proof (induction k arbitrary: t)
  case 0
  then show ?case by simp
next
  case (Suc k)
  then obtain c t' where t: "t = c # t'" by (cases t) auto
  with Suc.prems have "isCont c" "list_all isCont (take k t')" "k \<le> length t'"
    by simp_all
  with Suc.IH [of t'] t isCont_high [of c] show ?case
    by (simp del: validChars.simps add: validChars_high)
qed

lemma getu4_hex:
  "hexDigit h1 \<Longrightarrow> hexDigit h2 \<Longrightarrow> hexDigit h3 \<Longrightarrow> hexDigit h4 \<Longrightarrow>
     \<exists>rr. \<forall>t. getu4 (h1 # h2 # h3 # h4 # t) = Some rr"
  using hexVal_Some [of h1] hexVal_Some [of h2] hexVal_Some [of h3] hexVal_Some [of h4]
  by (auto simp: getu4_def)

lemma getu4_Some:
  "getu4 s = Some rr \<Longrightarrow>
     \<exists>h1 h2 h3 h4 t. s = h1 # h2 # h3 # h4 # t \<and> hexDigit h1 \<and> hexDigit h2 \<and> hexDigit h3 \<and> hexDigit h4"
  using hexVal_hexDigit
  by (auto simp: getu4_def split: list.splits option.splits)

lemma getu4esc_valid:
  assumes "validChars t"
  shows "(\<forall>rest. getu4esc (t @ CHR 0x22 # rest) = None)
       \<or> (\<exists>h1 h2 h3 h4 t' rr. t = CHR 0x5C # CHR ''u'' # h1 # h2 # h3 # h4 # t' \<and> validChars t'
             \<and> (\<forall>rest. getu4esc (t @ CHR 0x22 # rest) = Some rr))"
proof (cases t)
  case Nil
  then show ?thesis by (simp add: getu4esc_def split: list.splits)
next
  case (Cons x t3)
  show ?thesis
  proof (cases "x = CHR 0x5C")
    case False
    with Cons show ?thesis by (simp add: getu4esc_def split: list.splits)
  next
    case True
    with Cons assms obtain e t4 where t3: "t3 = e # t4"
      by (cases t3) auto
    show ?thesis
    proof (cases "e = CHR ''u''")
      case False
      with Cons True t3 show ?thesis by (simp add: getu4esc_def)
    next
      case u: True
      with Cons True t3 assms obtain h1 h2 h3 h4 t' where t4: "t4 = h1 # h2 # h3 # h4 # t'"
        and h: "hexDigit h1" "hexDigit h2" "hexDigit h3" "hexDigit h4" and v: "validChars t'"
        by (auto split: list.splits)
      from getu4_hex [OF h] obtain rr where "\<forall>t. getu4 (h1 # h2 # h3 # h4 # t) = Some rr" ..
      with Cons True t3 u t4 v show ?thesis
        by (simp add: getu4esc_def)
    qed
  qed
qed

lemma unquoteStep_valid:
  assumes v: "validChars (c # b)"
  shows "\<exists>bs b'. validChars b' \<and> length b' \<le> length b
           \<and> (\<forall>rest. unquoteStep c (b @ CHR 0x22 # rest) = Some (bs, b' @ CHR 0x22 # rest))"
proof (cases "c = CHR 0x5C")
  case True
  with v obtain e t where b: "b = e # t"
    by (cases b) auto
  show ?thesis
  proof (cases "e = CHR ''u''")
    case False
    with True b v have "escapable e" "validChars t" by auto
    with escChar_escapable [of e] obtain ch where "escChar e = Some ch" by auto
    with True b False \<open>validChars t\<close> show ?thesis
      by (auto simp: unquoteStep_def)
  next
    case u: True
    with True b v obtain h1 h2 h3 h4 t'' where t: "t = h1 # h2 # h3 # h4 # t''"
      and h: "hexDigit h1" "hexDigit h2" "hexDigit h3" "hexDigit h4" and v'': "validChars t''"
      by (auto split: list.splits)
    from getu4_hex [OF h] obtain rr where rr: "\<And>x. getu4 (h1 # h2 # h3 # h4 # x) = Some rr" by blast
    show ?thesis
    proof (cases "isSurrogate rr")
      case False
      with True b u t rr v'' show ?thesis
        by (auto simp: unquoteStep_def)
    next
      case s: True
      from getu4esc_valid [OF v''] show ?thesis
      proof
        assume "\<forall>rest. getu4esc (t'' @ CHR 0x22 # rest) = None"
        with True b u t rr v'' s show ?thesis
          by (auto simp: unquoteStep_def)
      next
        assume "\<exists>h1 h2 h3 h4 t' rr. t'' = CHR 0x5C # CHR ''u'' # h1 # h2 # h3 # h4 # t' \<and> validChars t'
             \<and> (\<forall>rest. getu4esc (t'' @ CHR 0x22 # rest) = Some rr)"
        then obtain g1 g2 g3 g4 t' rr1 where t'': "t'' = CHR 0x5C # CHR ''u'' # g1 # g2 # g3 # g4 # t'"
          and v': "validChars t'" and e: "\<And>rest. getu4esc (t'' @ CHR 0x22 # rest) = Some rr1"
          by blast
        show ?thesis
        proof (cases "decodeSurrogates rr rr1")
          case None
          have "unquoteStep c (b @ CHR 0x22 # rest) = Some (replacementChar, t'' @ CHR 0x22 # rest)" for rest
            using True b u t rr [of "t'' @ CHR 0x22 # rest"] s e [of rest] None
            by (simp add: unquoteStep_def)
          with v'' t b show ?thesis
            by (intro exI [of _ replacementChar] exI [of _ t'']) simp
        next
          case (Some dec)
          have "unquoteStep c (b @ CHR 0x22 # rest) = Some (encodeRune dec, t' @ CHR 0x22 # rest)" for rest
            using True b u t rr [of "t'' @ CHR 0x22 # rest"] s e [of rest] Some t''
            by (simp add: unquoteStep_def)
          with v' t b t'' show ?thesis
            by (intro exI [of _ "encodeRune dec"] exI [of _ t']) simp
        qed
      qed
    qed
  qed
next
  case False
  with v have c: "c \<noteq> CHR 0x22" "32 \<le> (of_char c :: nat)" and vb: "validChars b"
    by auto
  show ?thesis
  proof (cases "(of_char c :: nat) < 128")
    case True
    with False c vb show ?thesis
      by (auto simp: unquoteStep_def)
  next
    case high: False
    let ?n = "utf8Len (c # b @ [CHR 0x22])"
    have n: "utf8Len (c # b @ CHR 0x22 # rest) = ?n" for rest
      by (rule utf8Len_indep)
    show ?thesis
    proof (cases "?n = 0")
      case True
      with False c high n vb show ?thesis
        by (auto simp: unquoteStep_def)
    next
      case pos: False
      from utf8Len_conts [OF refl, of c "b @ [CHR 0x22]"] pos
      have k: "list_all isCont (take (?n - 1) (b @ [CHR 0x22]))" and n2: "2 \<le> ?n"
        by simp_all
      have le: "?n - 1 \<le> length b"
      proof (rule ccontr)
        assume "\<not> ?n - 1 \<le> length b"
        then have eq: "take (?n - 1) (b @ [CHR 0x22]) = b @ [CHR 0x22]" by simp
        from k [unfolded eq] have "isCont (CHR 0x22)" by simp
        with not_isCont_quote show False ..
      qed
      with k have kb: "list_all isCont (take (?n - 1) b)" by simp
      have vd: "validChars (drop (?n - 1) b)"
        using validChars_drop_conts [OF kb le] vb by simp
      have "unquoteStep c (b @ CHR 0x22 # rest)
              = Some (c # take (?n - 1) b, drop (?n - 1) b @ CHR 0x22 # rest)" for rest
        using False c high n [of rest] pos le n2
        by (simp add: unquoteStep_def take_Cons')
      with vd show ?thesis
        by (intro exI [of _ "c # take (?n - 1) b"] exI [of _ "drop (?n - 1) b"]) simp
    qed
  qed
qed

lemma validChars_not_quote: "validChars (c # b) \<Longrightarrow> c \<noteq> CHR 0x22"
  by (auto split: if_splits)

lemma unquote_valid:
  "validChars b \<Longrightarrow> \<exists>v. \<forall>rest out. unquote (b @ CHR 0x22 # rest) out = Some (out @ v, rest)"
proof (induction "length b" arbitrary: b rule: less_induct)
  case less
  show ?case
  proof (cases b)
    case Nil
    then show ?thesis by (simp add: unquote.simps)
  next
    case (Cons c b0)
    with less.prems have v: "validChars (c # b0)" by simp
    then have q: "c \<noteq> CHR 0x22" by (rule validChars_not_quote)
    from unquoteStep_valid [OF v] obtain bs b' where b': "validChars b'" "length b' \<le> length b0"
      and st: "\<And>rest. unquoteStep c (b0 @ CHR 0x22 # rest) = Some (bs, b' @ CHR 0x22 # rest)"
      by blast
    from less.hyps [of b'] b' Cons obtain v' where
      v': "\<And>rest out. unquote (b' @ CHR 0x22 # rest) out = Some (out @ v', rest)"
      by auto
    have "unquote (b @ CHR 0x22 # rest) out = Some (out @ bs @ v', rest)" for rest out
      using Cons q st [of rest] v' [of rest "out @ bs"] by (simp add: unquote.simps)
    then show ?thesis by blast
  qed
qed

lemma unquote_literal:
  assumes "validChars b"
  shows "unquote (b @ CHR 0x22 # rest) out = Some (out @ literalValue b, rest)"
proof -
  from unquote_valid [OF assms] obtain v where
    v: "\<And>rest out. unquote (b @ CHR 0x22 # rest) out = Some (out @ v, rest)" by blast
  from v [of "[]" "[]"] have "literalValue b = v"
    by (simp add: literalValue_def)
  with v show ?thesis by simp
qed

lemma validChars_highs:
  "list_all (\<lambda>x. 128 \<le> (of_char x :: nat)) pre \<Longrightarrow> validChars (pre @ t) = validChars t"
  by (induction pre) (simp_all del: validChars.simps add: validChars_high)

lemma unquoteStep_consumes:
  assumes "unquoteStep c s = Some (bs, s')" "c \<noteq> CHR 0x22"
  shows "\<exists>pre. c # s = pre @ s' \<and> (\<forall>t. validChars t \<longrightarrow> validChars (pre @ t))"
proof (cases "c = CHR 0x5C")
  case True
  with assms obtain e r where s: "s = e # r"
    by (cases s) (auto simp: unquoteStep_def)
  show ?thesis
  proof (cases "e = CHR ''u''")
    case False
    with True s assms escChar_escapable [of e] have "s' = r" "escapable e"
      by (auto simp: unquoteStep_def split: option.splits)
    with True s False show ?thesis
      by (intro exI [of _ "[c, e]"]) simp
  next
    case u: True
    with True s assms obtain rr where rr: "getu4 r = Some rr"
      by (auto simp: unquoteStep_def split: option.splits)
    from getu4_Some [OF rr] obtain h1 h2 h3 h4 r4 where r: "r = h1 # h2 # h3 # h4 # r4"
      and h: "hexDigit h1" "hexDigit h2" "hexDigit h3" "hexDigit h4" by blast
    have one: "\<forall>t. validChars t \<longrightarrow> validChars ([c, e, h1, h2, h3, h4] @ t)"
      using True u h by simp
    consider "s' = r4" | rr1 where "getu4esc r4 = Some rr1" "s' = drop 6 r4"
      using True s u rr r assms
      by (auto simp: unquoteStep_def split: option.splits if_splits)
    then show ?thesis
    proof cases
      case 1
      with s r one show ?thesis
        by (intro exI [of _ "[c, e, h1, h2, h3, h4]"]) simp
    next
      case 2
      then obtain x y r6 where r4: "r4 = x # y # r6" "x = CHR 0x5C" "y = CHR ''u''" "getu4 r6 = Some rr1"
        by (auto simp: getu4esc_def split: list.splits if_splits)
      from getu4_Some [OF r4(4)] obtain g1 g2 g3 g4 r10 where r6: "r6 = g1 # g2 # g3 # g4 # r10"
        and g: "hexDigit g1" "hexDigit g2" "hexDigit g3" "hexDigit g4" by blast
      have "\<forall>t. validChars t \<longrightarrow> validChars ([c, e, h1, h2, h3, h4, x, y, g1, g2, g3, g4] @ t)"
        using True u h r4 g by simp
      with s r r4 r6 2 show ?thesis
        by (intro exI [of _ "[c, e, h1, h2, h3, h4, x, y, g1, g2, g3, g4]"]) simp
    qed
  qed
next
  case False
  show ?thesis
  proof (cases "(of_char c :: nat) < 128")
    case True
    with False assms have "s' = s" "32 \<le> (of_char c :: nat)"
      by (auto simp: unquoteStep_def split: if_splits)
    with False assms(2) show ?thesis
      by (intro exI [of _ "[c]"]) simp
  next
    case high: False
    show ?thesis
    proof (cases "utf8Len (c # s) = 0")
      case True
      with False high assms have "s' = s"
        by (auto simp: unquoteStep_def split: if_splits)
      with False assms(2) high show ?thesis
        by (intro exI [of _ "[c]"]) simp
    next
      case pos: False
      let ?n = "utf8Len (c # s)"
      from False high pos assms have s': "s' = drop (?n - 1) s"
        by (auto simp: unquoteStep_def split: if_splits)
      from utf8Len_conts [OF refl, of c s] pos
      have k: "list_all isCont (take (?n - 1) s)" and le: "?n - 1 \<le> length s"
        by simp_all
      have "list_all (\<lambda>x. 128 \<le> (of_char x :: nat)) (take (?n - 1) s)"
        using k isCont_high by (simp add: list_all_iff)
      with high have "list_all (\<lambda>x. 128 \<le> (of_char x :: nat)) (c # take (?n - 1) s)"
        by simp
      then have "\<forall>t. validChars t \<longrightarrow> validChars ((c # take (?n - 1) s) @ t)"
        using validChars_highs by blast
      with s' show ?thesis
        by (intro exI [of _ "c # take (?n - 1) s"]) simp
    qed
  qed
qed

lemma unquote_complete:
  "unquote s out = Some (v, rest) \<Longrightarrow> \<exists>b. s = b @ CHR 0x22 # rest \<and> validChars b"
proof (induction s out rule: unquote.induct)
  case (1 out)
  then show ?case by (simp add: unquote.simps)
next
  case (2 c s out)
  show ?case
  proof (cases "c = CHR 0x22")
    case True
    with "2.prems" show ?thesis
      by (intro exI [of _ "[]"]) (simp add: unquote.simps)
  next
    case False
    with "2.prems" obtain bs s' where st: "unquoteStep c s = Some (bs, s')"
      and rec: "unquote s' (out @ bs) = Some (v, rest)"
      by (auto simp: unquote.simps split: option.splits)
    from "2.IH" [OF False st refl rec] obtain b where b: "s' = b @ CHR 0x22 # rest" "validChars b"
      by blast
    from unquoteStep_consumes [OF st False] obtain pre where
      pre: "c # s = pre @ s'" "\<forall>t. validChars t \<longrightarrow> validChars (pre @ t)" by blast
    with b show ?thesis
      by (intro exI [of _ "pre @ b"]) simp
  qed
qed

lemma stringOrNull_elem:
  "okElem el \<Longrightarrow> stringOrNull (elemText el @ rest) = Some (elemValue el, rest)"
  by (cases el) (simp_all add: okElem_def elemText_def elemValue_def stringOrNull_def jsonQuote_def
      unquote_literal)

lemma stringOrNull_cases:
  assumes "stringOrNull s = Some (v, rest)"
  shows "(\<exists>r. s = CHR 0x22 # r \<and> unquote r [] = Some (v, rest))
       \<or> (take 4 s = ''null'' \<and> v = [] \<and> rest = drop 4 s)"
proof -
  define P where "P = (take 4 s = ''null'')"
  define d where "d = drop 4 s"
  have "stringOrNull s =
          (case s of [] \<Rightarrow> None
           | c # r \<Rightarrow> if c = CHR 0x22 then unquote r [] else if P then Some ([], d) else None)"
    unfolding stringOrNull_def P_def d_def ..
  with assms have "(\<exists>r. s = CHR 0x22 # r \<and> unquote r [] = Some (v, rest)) \<or> (P \<and> v = [] \<and> rest = d)"
    by (cases s) (auto split: if_splits)
  then show ?thesis
    unfolding P_def d_def .
qed

lemma stringOrNull_complete:
  assumes "stringOrNull s = Some (v, rest)"
  shows "\<exists>el. okElem el \<and> s = elemText el @ rest \<and> v = elemValue el"
  using stringOrNull_cases [OF assms]
proof
  assume "\<exists>r. s = CHR 0x22 # r \<and> unquote r [] = Some (v, rest)"
  then obtain r where s: "s = CHR 0x22 # r" and u: "unquote r [] = Some (v, rest)"
    by blast
  from unquote_complete [OF u] obtain b where b: "r = b @ CHR 0x22 # rest" "validChars b"
    by blast
  with u unquote_literal [of b rest "[]"] have "v = literalValue b"
    by simp
  with s b show ?thesis
    by (intro exI [of _ "Some b"]) (simp add: okElem_def elemText_def elemValue_def jsonQuote_def)
next
  assume n: "take 4 s = ''null'' \<and> v = [] \<and> rest = drop 4 s"
  have "s = take 4 s @ drop 4 s" by simp
  with n have "s = ''null'' @ rest" by metis
  with n show ?thesis
    by (intro exI [of _ None]) (simp add: okElem_def elemText_def elemValue_def)
qed

lemma elemText_head: "\<exists>c r. elemText el = c # r \<and> \<not> isSpace c \<and> c \<noteq> CHR '']'' \<and> c \<noteq> CHR ''[''"
  by (cases el) (simp_all add: elemText_def jsonQuote_def isSpace_def)

lemma skipSpace_elem: "skipSpace (elemText el @ rest) = elemText el @ rest"
  using elemText_head [of el] by (auto simp: skipSpace_nonspace)

lemma Unmarshal_string_iff:
  "Unmarshal_string a = Some v \<longleftrightarrow>
     (\<exists>w1 el w2. blank w1 \<and> blank w2 \<and> okElem el \<and> a = w1 @ elemText el @ w2 \<and> v = elemValue el)"
proof
  assume "Unmarshal_string a = Some v"
  then obtain rest where s: "stringOrNull (skipSpace a) = Some (v, rest)" and r: "skipSpace rest = []"
    by (auto simp: Unmarshal_string_def split: option.splits if_splits)
  from stringOrNull_complete [OF s] obtain el where
    el: "okElem el" "skipSpace a = elemText el @ rest" "v = elemValue el" by blast
  from skipSpace_split [of a] obtain w1 where "blank w1" "a = w1 @ skipSpace a" by blast
  with el r show "\<exists>w1 el w2. blank w1 \<and> blank w2 \<and> okElem el \<and> a = w1 @ elemText el @ w2 \<and> v = elemValue el"
    by (intro exI [of _ w1] exI [of _ el] exI [of _ rest]) (simp add: skipSpace_empty)
next
  assume "\<exists>w1 el w2. blank w1 \<and> blank w2 \<and> okElem el \<and> a = w1 @ elemText el @ w2 \<and> v = elemValue el"
  then obtain w1 el w2 where h: "blank w1" "blank w2" "okElem el" "a = w1 @ elemText el @ w2"
    "v = elemValue el" by blast
  then have "skipSpace a = elemText el @ w2"
    by (simp add: skipSpace_blank skipSpace_elem)
  with h show "Unmarshal_string a = Some v"
    by (simp add: Unmarshal_string_def stringOrNull_elem skipSpace_empty)
qed

lemma itemsText_Cons:
  "items \<noteq> [] \<Longrightarrow> itemsText (x # items) = itemText x @ '','' @ itemsText items"
  by (cases items) simp_all

lemma arrayElems_step:
  assumes "blank w" "okElem el" "blank w'" "\<not> isSpace c"
  shows "arrayElems (w @ elemText el @ w' @ c # r) acc
           = (if c = CHR '','' then arrayElems r (acc @ [elemValue el])
              else if c = CHR '']'' then Some (acc @ [elemValue el], r) else None)"
proof -
  have a: "skipSpace (w @ elemText el @ w' @ c # r) = elemText el @ w' @ c # r"
    using assms by (simp add: skipSpace_blank skipSpace_elem)
  have b: "skipSpace (w' @ c # r) = c # r"
    using assms by (simp add: skipSpace_blank skipSpace_nonspace)
  show ?thesis
    by (subst arrayElems.simps) (simp only: a stringOrNull_elem [OF assms(2)] b option.case prod.case list.case)
qed

lemma arrayElems_items:
  "items \<noteq> [] \<Longrightarrow> list_all okItem items \<Longrightarrow>
     arrayElems (itemsText items @ CHR '']'' # rest) acc = Some (acc @ map itemValue items, rest)"
proof (induction items arbitrary: acc rule: itemsText.induct)
  case 1
  then show ?case by simp
next
  case (2 x)
  obtain w el w' where x: "x = (w, el, w')" by (cases x)
  with 2 have ok: "blank w" "okElem el" "blank w'" by simp_all
  have "arrayElems (w @ elemText el @ w' @ CHR '']'' # rest) acc = Some (acc @ [elemValue el], rest)"
    using arrayElems_step [OF ok, of "CHR '']''" rest acc] by (simp add: isSpace_def)
  with x show ?case by simp
next
  case (3 x y r)
  obtain w el w' where x: "x = (w, el, w')" by (cases x)
  with 3 have ok: "blank w" "okElem el" "blank w'" and rest: "list_all okItem (y # r)" by simp_all
  have ih: "arrayElems (itemsText (y # r) @ CHR '']'' # rest) (acc @ [elemValue el])
              = Some ((acc @ [elemValue el]) @ map itemValue (y # r), rest)"
    using "3.IH" [of "acc @ [elemValue el]"] rest by simp
  have "arrayElems (w @ elemText el @ w' @ CHR '','' # itemsText (y # r) @ CHR '']'' # rest) acc
          = Some ((acc @ [elemValue el]) @ map itemValue (y # r), rest)"
    using arrayElems_step [OF ok, of "CHR '',''" "itemsText (y # r) @ CHR '']'' # rest" acc] ih
    by (simp add: isSpace_def)
  with x show ?case by simp
qed

lemma arrayElems_complete:
  "arrayElems s acc = Some (vs, rest) \<Longrightarrow>
     \<exists>items. items \<noteq> [] \<and> list_all okItem items \<and> s = itemsText items @ CHR '']'' # rest"
proof (induction s acc rule: arrayElems.induct)
  case (1 s acc)
  have unf: "arrayElems s acc =
     (case stringOrNull (skipSpace s) of
        None \<Rightarrow> None
      | Some (v, rest) \<Rightarrow>
          (case skipSpace rest of
             [] \<Rightarrow> None
           | c # rest' \<Rightarrow>
               if c = CHR '','' then arrayElems rest' (acc @ [v])
               else if c = CHR '']'' then Some (acc @ [v], rest')
               else None))"
    by (rule arrayElems.simps)
  from "1.prems" unf obtain v r1 where e: "stringOrNull (skipSpace s) = Some (v, r1)"
    by (cases "stringOrNull (skipSpace s)") auto
  from "1.prems" unf e obtain c r2 where r1: "skipSpace r1 = c # r2"
    by (cases "skipSpace r1") auto
  from "1.prems" unf e r1 have cases: "(c = CHR '','' \<and> arrayElems r2 (acc @ [v]) = Some (vs, rest))
      \<or> (c \<noteq> CHR '','' \<and> c = CHR '']'' \<and> rest = r2)"
    by (cases "c = CHR '',''"; cases "c = CHR '']''") simp_all
  from stringOrNull_complete [OF e] obtain el where
    el: "okElem el" "skipSpace s = elemText el @ r1" by blast
  from skipSpace_split [of s] obtain w where w: "blank w" "s = w @ skipSpace s" by blast
  from skipSpace_split [of r1] obtain w' where w': "blank w'" "r1 = w' @ skipSpace r1" by blast
  have "s = w @ elemText el @ r1"
    using w(2) el(2) by simp
  also have "r1 = w' @ c # r2"
    using w'(2) r1 by simp
  finally have s: "s = itemText (w, el, w') @ c # r2"
    by simp
  from cases show ?case
  proof
    assume a: "c = CHR '','' \<and> arrayElems r2 (acc @ [v]) = Some (vs, rest)"
    then have c: "c = CHR '',''" and rec: "arrayElems r2 (acc @ [v]) = Some (vs, rest)"
      by simp_all
    from "1.IH" [OF e refl r1 c rec] obtain items where
      items: "items \<noteq> []" "list_all okItem items" "r2 = itemsText items @ CHR '']'' # rest"
      by blast
    have ok: "list_all okItem ((w, el, w') # items)"
      using items(2) w(1) el(1) w'(1) by simp
    have "s = itemsText ((w, el, w') # items) @ CHR '']'' # rest"
      using s c items(3) itemsText_Cons [OF items(1), of "(w, el, w')"] by simp
    with ok show ?thesis
      by (intro exI [of _ "(w, el, w') # items"]) simp
  next
    assume "c \<noteq> CHR '','' \<and> c = CHR '']'' \<and> rest = r2"
    with s have "s = itemsText [(w, el, w')] @ CHR '']'' # rest"
      by simp
    moreover have "list_all okItem [(w, el, w')]"
      using w(1) el(1) w'(1) by simp
    ultimately show ?thesis
      by (intro exI [of _ "[(w, el, w')]"]) simp
  qed
qed

lemma hexVal_hexValue: "hexDigit c \<Longrightarrow> hexVal c = Some (hexValue c)"
  by (auto simp: hexVal_def hexDigit_def hexValue_def Let_def)

lemma hexValue_less: "hexDigit c \<Longrightarrow> hexValue c < 16"
  by (auto simp: hexDigit_def hexValue_def Let_def)

lemma hex4_cases:
  assumes "hex4 hs"
  obtains h1 h2 h3 h4 where "hs = [h1, h2, h3, h4]" "hexDigit h1" "hexDigit h2" "hexDigit h3" "hexDigit h4"
proof -
  from assms have l: "length hs = 4" and a: "list_all hexDigit hs"
    by (simp_all add: hex4_def)
  from l obtain h1 h2 h3 h4 where "hs = [h1, h2, h3, h4]"
    by (auto simp: length_Suc_conv numeral_eq_Suc)
  with a that show ?thesis by simp
qed

lemma getu4_hex4: "hex4 hs \<Longrightarrow> getu4 (hs @ t) = Some (hexNumber hs)"
  by (erule hex4_cases) (simp add: getu4_def hexVal_hexValue hexNumber_def)

lemma hexNumber_less: "hex4 hs \<Longrightarrow> hexNumber hs < 65536"
proof (erule hex4_cases)
  fix h1 h2 h3 h4
  assume hs: "hs = [h1, h2, h3, h4]" and h: "hexDigit h1" "hexDigit h2" "hexDigit h3" "hexDigit h4"
  from h have "hexValue h1 < 16" "hexValue h2 < 16" "hexValue h3 < 16" "hexValue h4 < 16"
    by (simp_all add: hexValue_less)
  with hs show ?thesis by (simp add: hexNumber_def)
qed

lemma validChars_hex4: "hex4 hs \<Longrightarrow> validChars (CHR 0x5C # CHR ''u'' # hs @ t) = validChars t"
  by (erule hex4_cases) simp

lemma encodeRune_utf8:
  "\<not> (55296 \<le> r \<and> r < 57344) \<Longrightarrow> r \<le> 1114111 \<Longrightarrow> encodeRune r = utf8 r"
  by (auto simp: encodeRune_def utf8_def)

lemma escChar_unescape: "escapable e \<Longrightarrow> escChar e = Some (unescape e) \<and> e \<noteq> CHR ''u''"
  by (auto simp: escapable_def escChar_def unescape_def)

lemma wellFormed_utf8Len:
  assumes "wellFormedUTF8 u"
  shows "\<exists>c r. u = c # r \<and> 128 \<le> (of_char c :: nat) \<and> utf8Len (c # r @ t) = length u
           \<and> list_all (\<lambda>x. 128 \<le> (of_char x :: nat)) u"
  using assms
  by (cases u rule: wellFormedUTF8.cases) (auto simp: utf8Len_def Let_def isCont_def)

lemma unquoteStep_char:
  assumes "okChar x"
  shows "\<exists>c r. renderChar x = c # r \<and> c \<noteq> CHR 0x22
           \<and> (\<forall>t. unquoteStep c (r @ t) = Some (charValue x, t))"
proof (cases x)
  case (Plain c)
  with assms show ?thesis by (simp add: unquoteStep_def)
next
  case (Wide u)
  with assms have w: "wellFormedUTF8 u" by simp
  from wellFormed_utf8Len [OF w, of "[]"] obtain c r where u: "u = c # r" and c: "128 \<le> (of_char c :: nat)"
    by auto
  have "unquoteStep c (r @ t) = Some (u, t)" for t
  proof -
    from wellFormed_utf8Len [OF w, of t] u have n: "utf8Len (c # r @ t) = length u"
      by auto
    have "c \<noteq> CHR 0x5C" using c by auto
    with c n u show ?thesis
      by (simp add: unquoteStep_def)
  qed
  moreover have "c \<noteq> CHR 0x22" using c by auto
  ultimately show ?thesis using Wide u by simp
next
  case (Escaped e)
  with assms escChar_unescape [of e] show ?thesis
    by (simp add: unquoteStep_def)
next
  case (Unicode hs)
  with assms have h: "hex4 hs" and ns: "\<not> (55296 \<le> hexNumber hs \<and> hexNumber hs < 57344)"
    by simp_all
  from h have l: "length hs = 4" by (simp add: hex4_def)
  have "unquoteStep (CHR 0x5C) ((CHR ''u'' # hs) @ t) = Some (utf8 (hexNumber hs), t)" for t
    using getu4_hex4 [OF h, of t] ns l hexNumber_less [OF h] encodeRune_utf8 [of "hexNumber hs"]
    by (auto simp: unquoteStep_def isSurrogate_def)
  with Unicode show ?thesis by simp
next
  case (Surrogates hi lo)
  with assms have h: "hex4 hi" "hex4 lo"
    and r: "55296 \<le> hexNumber hi" "hexNumber hi < 56320" "56320 \<le> hexNumber lo" "hexNumber lo < 57344"
    by simp_all
  from h have l: "length hi = 4" "length lo = 4" by (simp_all add: hex4_def)
  let ?v = "65536 + (hexNumber hi - 55296) * 1024 + (hexNumber lo - 56320)"
  have e: "encodeRune ?v = utf8 ?v"
    using r by (intro encodeRune_utf8) auto
  have "unquoteStep (CHR 0x5C) ((CHR ''u'' # hi @ CHR 0x5C # CHR ''u'' # lo) @ t) = Some (utf8 ?v, t)" for t
    using getu4_hex4 [OF h(1), of "CHR 0x5C # CHR ''u'' # lo @ t"] getu4_hex4 [OF h(2), of t] r l e
    by (simp add: unquoteStep_def isSurrogate_def getu4esc_def decodeSurrogates_def add.commute add.left_commute)
  with Surrogates show ?thesis by simp
qed

lemma validChars_char: "okChar x \<Longrightarrow> validChars (renderChar x @ t) = validChars t"
proof (cases x)
  case (Wide u)
  assume "okChar x"
  with Wide wellFormed_utf8Len [of u "[]"] validChars_highs [of u t] show ?thesis
    by auto
next
  case (Surrogates hi lo)
  assume "okChar x"
  with Surrogates validChars_hex4 [of hi "CHR 0x5C # CHR ''u'' # lo @ t"] validChars_hex4 [of lo t]
  show ?thesis by simp
next
  case (Unicode hs)
  assume "okChar x"
  with Unicode validChars_hex4 [of hs t] show ?thesis by simp
qed (auto simp: escChar_unescape)

lemma validChars_chars: "list_all okChar cs \<Longrightarrow> validChars (renderChars cs)"
proof (induction cs)
  case Nil
  then show ?case by (simp add: renderChars_def)
next
  case (Cons x cs)
  then have "validChars (renderChar x @ renderChars cs)"
    using validChars_char [of x "renderChars cs"] by simp
  then show ?case by (simp add: renderChars_def)
qed

lemma unquote_chars:
  "list_all okChar cs \<Longrightarrow>
     unquote (renderChars cs @ CHR 0x22 # rest) out = Some (out @ charsValue cs, rest)"
proof (induction cs arbitrary: out)
  case Nil
  then show ?case by (simp add: renderChars_def charsValue_def unquote.simps)
next
  case (Cons x cs)
  then have ok: "okChar x" "list_all okChar cs" by simp_all
  from unquoteStep_char [OF ok(1)] obtain c r where c: "renderChar x = c # r" "c \<noteq> CHR 0x22"
    and st: "\<And>t. unquoteStep c (r @ t) = Some (charValue x, t)" by blast
  have "unquote (c # r @ renderChars cs @ CHR 0x22 # rest) out
          = unquote (renderChars cs @ CHR 0x22 # rest) (out @ charValue x)"
    using c(2) st [of "renderChars cs @ CHR 0x22 # rest"] by (simp add: unquote.simps)
  with Cons.IH [OF ok(2), of "out @ charValue x"] c(1) show ?case
    by (simp add: renderChars_def charsValue_def)
qed

lemma literalValue_chars: "list_all okChar cs \<Longrightarrow> literalValue (renderChars cs) = charsValue cs"
  using unquote_chars [of cs "[]" "[]"] by (simp add: literalValue_def)

lemma plainItem_ok: "okRoleItem x \<Longrightarrow> okItem (plainItem x) \<and> itemValue (plainItem x) = roleOf x"
  by (cases x) (auto simp: okElem_def elemValue_def validChars_chars literalValue_chars split: option.splits)

lemma plainItems_ok:
  "list_all okRoleItem xs \<Longrightarrow>
     list_all okItem (map plainItem xs) \<and> map itemValue (map plainItem xs) = map roleOf xs"
  by (induction xs) (simp_all add: plainItem_ok)

lemma Unmarshal_string_text:
  assumes "blank w1" "blank w2" "validChars b"
  shows "Unmarshal_string (stringText w1 b w2) = Some (literalValue b)"
proof -
  have "blank w1 \<and> blank w2 \<and> okElem (Some b) \<and> stringText w1 b w2 = w1 @ elemText (Some b) @ w2
          \<and> literalValue b = elemValue (Some b)"
    using assms by (simp add: stringText_def okElem_def elemText_def elemValue_def)
  then show ?thesis
    unfolding Unmarshal_string_iff by blast
qed

lemma Unmarshal_string_nullText:
  assumes "blank w1" "blank w2"
  shows "Unmarshal_string (nullText w1 w2) = Some []"
proof -
  have "blank w1 \<and> blank w2 \<and> okElem None \<and> nullText w1 w2 = w1 @ elemText None @ w2
          \<and> [] = elemValue None"
    using assms by (simp add: nullText_def okElem_def elemText_def elemValue_def)
  then show ?thesis
    unfolding Unmarshal_string_iff by blast
qed

lemma Unmarshal_string_forms:
  assumes "Unmarshal_string a = Some v"
  shows "(\<exists>w1 b w2. blank w1 \<and> blank w2 \<and> validChars b \<and> a = stringText w1 b w2)
       \<or> (\<exists>w1 w2. blank w1 \<and> blank w2 \<and> a = nullText w1 w2)"
proof -
  from assms Unmarshal_string_iff [of a v] obtain w1 el w2 where
    h: "blank w1" "blank w2" "okElem el" "a = w1 @ elemText el @ w2" by blast
  show ?thesis
  proof (cases el)
    case None
    with h show ?thesis by (auto simp: nullText_def elemText_def)
  next
    case (Some b)
    with h show ?thesis by (auto simp: stringText_def elemText_def okElem_def)
  qed
qed

lemma skipSpace_arrayText: "blank w0 \<Longrightarrow> skipSpace (arrayText w0 inner w2) = CHR ''['' # inner @ CHR '']'' # w2"
  by (simp add: arrayText_def skipSpace_blank skipSpace_nonspace isSpace_def)

lemma Unmarshal_string_bracket: "skipSpace a = CHR ''['' # r \<Longrightarrow> Unmarshal_string a = None"
  by (simp add: Unmarshal_string_def stringOrNull_def)

lemma Unmarshal_strings_bracket:
  "skipSpace a = CHR ''['' # r \<Longrightarrow>
     Unmarshal_strings a =
       (case skipSpace r of
          [] \<Rightarrow> None
        | c' # r' \<Rightarrow>
            if c' = CHR '']'' then (if skipSpace r' = [] then Some [] else None)
            else (case arrayElems r [] of
                    None \<Rightarrow> None
                  | Some (vs, rest) \<Rightarrow> if skipSpace rest = [] then Some vs else None))"
  by (simp add: Unmarshal_strings_def)

lemma Unmarshal_strings_empty:
  assumes "blank w0" "blank w1" "blank w2"
  shows "Unmarshal_strings (arrayText w0 w1 w2) = Some []"
proof -
  have "skipSpace (w1 @ CHR '']'' # w2) = CHR '']'' # w2"
    using assms by (simp add: skipSpace_blank skipSpace_nonspace isSpace_def)
  then show ?thesis
    using assms Unmarshal_strings_bracket [OF skipSpace_arrayText [OF assms(1), of w1 w2]]
    by (simp add: skipSpace_empty)
qed

lemma skipSpace_items:
  assumes "items \<noteq> []" "list_all okItem items"
  shows "\<exists>c r. skipSpace (itemsText items @ t) = c # r \<and> c \<noteq> CHR '']''"
proof -
  from assms obtain w el w' rest where items: "items = (w, el, w') # rest" and w: "blank w"
    by (cases items) auto
  obtain u where u: "itemsText items @ t = w @ elemText el @ u"
    using items by (cases rest) auto
  from elemText_head [of el] obtain c r where "elemText el = c # r" "\<not> isSpace c" "c \<noteq> CHR '']''"
    by blast
  with u w show ?thesis
    by (simp add: skipSpace_blank skipSpace_nonspace)
qed

lemma Unmarshal_strings_items:
  assumes "blank w0" "blank w2" "items \<noteq> []" "list_all okItem items"
  shows "Unmarshal_strings (arrayText w0 (itemsText items) w2) = Some (map itemValue items)"
proof -
  from skipSpace_items [OF assms(3,4), of "CHR '']'' # w2"] obtain c r where
    c: "skipSpace (itemsText items @ CHR '']'' # w2) = c # r" "c \<noteq> CHR '']''" by blast
  have e: "arrayElems (itemsText items @ CHR '']'' # w2) [] = Some (map itemValue items, w2)"
    using arrayElems_items [OF assms(3,4), of w2 "[]"] by simp
  show ?thesis
    using Unmarshal_strings_bracket [OF skipSpace_arrayText [OF assms(1), of "itemsText items" w2]]
      c e assms(2)
    by (simp add: skipSpace_empty)
qed

lemma Unmarshal_strings_forms:
  assumes "Unmarshal_strings a = Some vs"
  shows "(\<exists>w1 w2. blank w1 \<and> blank w2 \<and> a = nullText w1 w2)
       \<or> (\<exists>w0 w1 w2. blank w0 \<and> blank w1 \<and> blank w2 \<and> a = arrayText w0 w1 w2)
       \<or> (\<exists>w0 items w2. blank w0 \<and> blank w2 \<and> items \<noteq> [] \<and> list_all okItem items
             \<and> a = arrayText w0 (itemsText items) w2)"
proof -
  from skipSpace_split [of a] obtain w0 where w0: "blank w0" "a = w0 @ skipSpace a" by blast
  define P where "P = (take 4 (skipSpace a) = ''null'' \<and> skipSpace (drop 4 (skipSpace a)) = [])"
  from assms obtain c r where s: "skipSpace a = c # r"
    by (cases "skipSpace a") (simp_all add: Unmarshal_strings_def)
  show ?thesis
  proof (cases "c = CHR ''[''")
    case False
    have "Unmarshal_strings a = (if P then Some [] else None)"
      unfolding Unmarshal_strings_def P_def s [symmetric] using s False by simp
    with assms have "P" by (simp split: if_splits)
    then have n: "take 4 (skipSpace a) = ''null''" and b: "blank (drop 4 (skipSpace a))"
      by (simp_all add: P_def skipSpace_empty)
    have "skipSpace a = take 4 (skipSpace a) @ drop 4 (skipSpace a)" by simp
    with n have "skipSpace a = ''null'' @ drop 4 (skipSpace a)" by metis
    with w0 have "a = nullText w0 (drop 4 (skipSpace a))"
      by (simp add: nullText_def)
    with w0 b show ?thesis by blast
  next
    case True
    with s have br: "skipSpace a = CHR ''['' # r" by simp
    note u = Unmarshal_strings_bracket [OF br]
    from assms u obtain c' r' where r: "skipSpace r = c' # r'"
      by (cases "skipSpace r") simp_all
    from skipSpace_split [of r] obtain w1 where w1: "blank w1" "r = w1 @ skipSpace r" by blast
    show ?thesis
    proof (cases "c' = CHR '']''")
      case c: True
      with assms u r have "blank r'"
        by (simp add: skipSpace_empty split: if_splits)
      moreover have "a = arrayText w0 w1 r'"
        using w0 br w1 r c by (simp add: arrayText_def)
      ultimately show ?thesis using w0 w1 by blast
    next
      case c: False
      with assms u r obtain rest where e: "arrayElems r [] = Some (vs, rest)" and b: "blank rest"
        by (auto simp: skipSpace_empty split: option.splits if_splits)
      from arrayElems_complete [OF e] obtain items where
        items: "items \<noteq> []" "list_all okItem items" "r = itemsText items @ CHR '']'' # rest" by blast
      have "a = arrayText w0 (itemsText items) rest"
        using w0 br items(3) by (simp add: arrayText_def)
      with w0 b items show ?thesis by blast
    qed
  qed
qed

text \<open>
  C8, as the claim states it, fails on three annotations. The text \<^verbatim>\<open>null\<close> is
  neither a JSON string nor a JSON array, and \<^verbatim>\<open>json.Unmarshal\<close> into a
  \<^verbatim>\<open>*string\<close> accepts it and leaves the empty string, so \<^verbatim>\<open>GetRoles\<close> returns
  the one empty role and no error. In an array, \<^verbatim>\<open>null\<close> is accepted in the same
  way and gives an empty role. An array with an element of another kind is a JSON array
  and is refused.
\<close>

theorem GetRoles_counterexample:
  "GetRoles (metaWith None (Some [''tarantool.io/rolesToAssign'' \<mapsto> ''null''])) = Inr [[]]
   \<and> GetRoles (metaWith None (Some [''tarantool.io/rolesToAssign'' \<mapsto> ''[null]''])) = Inr [[]]
   \<and> GetRoles (metaWith None (Some [''tarantool.io/rolesToAssign'' \<mapsto> ''[1]'']))
       = Inl (ErrNew ''failed to parse roles from annotations'')"
  by (simp add: GetRoles_def mapGet_def metaWith_def Unmarshal_string_def Unmarshal_strings_def
      stringOrNull_def skipSpace_def isSpace_def arrayElems.simps)

text \<open>
  C8, amended. The annotation is read first and the label only when the annotation is
  absent. An annotation that is a JSON string yields one role, the string it denotes;
  the literal \<^verbatim>\<open>null\<close> yields the one empty role; an array whose elements are
  strings or \<^verbatim>\<open>null\<close> yields one role for each element, the string it denotes or
  the empty role for \<^verbatim>\<open>null\<close>; white space around the text and around the
  elements is allowed. (A string that is not well-formed Unicode, with a lone surrogate
  or bytes that are not UTF-8, still yields one role.) Any other annotation is the error
  \<^verbatim>\<open>failed to parse roles from annotations\<close>, and only those are. A label yields
  its split at the dots; with neither annotation nor label the error is
  \<^verbatim>\<open>role undefined\<close>.
\<close>

theorem GetRoles_cases:
  "(mapGet (Annotations obj) ''tarantool.io/rolesToAssign'' = Some a \<longrightarrow>
      (\<forall>w1 b w2. blank w1 \<and> blank w2 \<and> validChars b \<and> a = stringText w1 b w2 \<longrightarrow>
         (\<exists>r. GetRoles obj = Inr [r]))
      \<and> (\<forall>w1 cs w2. blank w1 \<and> blank w2 \<and> list_all okChar cs \<and> a = stringText w1 (renderChars cs) w2 \<longrightarrow>
            GetRoles obj = Inr [charsValue cs])
      \<and> (\<forall>w1 w2. blank w1 \<and> blank w2 \<and> a = nullText w1 w2 \<longrightarrow> GetRoles obj = Inr [[]])
      \<and> (\<forall>w0 w1 w2. blank w0 \<and> blank w1 \<and> blank w2 \<and> a = arrayText w0 w1 w2 \<longrightarrow> GetRoles obj = Inr [])
      \<and> (\<forall>w0 items w2. blank w0 \<and> blank w2 \<and> items \<noteq> [] \<and> list_all okItem items
            \<and> a = arrayText w0 (itemsText items) w2 \<longrightarrow>
            (\<exists>rs. GetRoles obj = Inr rs \<and> length rs = length items))
      \<and> (\<forall>w0 items w2. blank w0 \<and> blank w2 \<and> items \<noteq> [] \<and> list_all okRoleItem items
            \<and> a = arrayText w0 (itemsText (map plainItem items)) w2 \<longrightarrow>
            GetRoles obj = Inr (map roleOf items))
      \<and> (GetRoles obj = Inl (ErrNew ''failed to parse roles from annotations'') \<longleftrightarrow>
            \<not> (\<exists>w1 b w2. blank w1 \<and> blank w2 \<and> validChars b \<and> a = stringText w1 b w2)
          \<and> \<not> (\<exists>w1 w2. blank w1 \<and> blank w2 \<and> a = nullText w1 w2)
          \<and> \<not> (\<exists>w0 w1 w2. blank w0 \<and> blank w1 \<and> blank w2 \<and> a = arrayText w0 w1 w2)
          \<and> \<not> (\<exists>w0 items w2. blank w0 \<and> blank w2 \<and> items \<noteq> [] \<and> list_all okItem items
                   \<and> a = arrayText w0 (itemsText items) w2)))
   \<and> (mapGet (Annotations obj) ''tarantool.io/rolesToAssign'' = None \<longrightarrow>
      (\<forall>l. mapGet (Labels obj) ''tarantool.io/rolesToAssign'' = Some l \<longrightarrow>
         GetRoles obj = Inr (Split l (CHR ''.'')))
      \<and> (mapGet (Labels obj) ''tarantool.io/rolesToAssign'' = None \<longrightarrow>
         GetRoles obj = Inl (ErrNew ''role undefined'')))"
proof (intro conjI impI allI)
  fix w1 b w2
  assume a: "mapGet (Annotations obj) ''tarantool.io/rolesToAssign'' = Some a"
    and h: "blank w1 \<and> blank w2 \<and> validChars b \<and> a = stringText w1 b w2"
  then have "Unmarshal_string a = Some (literalValue b)"
    by (simp add: Unmarshal_string_text)
  with a show "\<exists>r. GetRoles obj = Inr [r]"
    by (simp add: GetRoles_def)
next
  fix w1 cs w2
  assume a: "mapGet (Annotations obj) ''tarantool.io/rolesToAssign'' = Some a"
    and h: "blank w1 \<and> blank w2 \<and> list_all okChar cs \<and> a = stringText w1 (renderChars cs) w2"
  then have "Unmarshal_string a = Some (charsValue cs)"
    using Unmarshal_string_text [of w1 w2 "renderChars cs"]
    by (simp add: validChars_chars literalValue_chars)
  with a show "GetRoles obj = Inr [charsValue cs]"
    by (simp add: GetRoles_def)
next
  fix w1 w2
  assume a: "mapGet (Annotations obj) ''tarantool.io/rolesToAssign'' = Some a"
    and h: "blank w1 \<and> blank w2 \<and> a = nullText w1 w2"
  then have "Unmarshal_string a = Some []"
    by (simp add: Unmarshal_string_nullText)
  with a show "GetRoles obj = Inr [[]]"
    by (simp add: GetRoles_def)
next
  fix w0 w1 w2
  assume a: "mapGet (Annotations obj) ''tarantool.io/rolesToAssign'' = Some a"
    and h: "blank w0 \<and> blank w1 \<and> blank w2 \<and> a = arrayText w0 w1 w2"
  then have "Unmarshal_string a = None" "Unmarshal_strings a = Some []"
    using Unmarshal_string_bracket [OF skipSpace_arrayText [of w0 w1 w2]]
    by (simp_all add: Unmarshal_strings_empty)
  with a show "GetRoles obj = Inr []"
    by (simp add: GetRoles_def)
next
  fix w0 items w2
  assume a: "mapGet (Annotations obj) ''tarantool.io/rolesToAssign'' = Some a"
    and h: "blank w0 \<and> blank w2 \<and> items \<noteq> [] \<and> list_all okItem items
            \<and> a = arrayText w0 (itemsText items) w2"
  then have "Unmarshal_string a = None" "Unmarshal_strings a = Some (map itemValue items)"
    using Unmarshal_string_bracket [OF skipSpace_arrayText [of w0 "itemsText items" w2]]
    by (simp_all add: Unmarshal_strings_items)
  with a show "\<exists>rs. GetRoles obj = Inr rs \<and> length rs = length items"
    by (simp add: GetRoles_def)
next
  fix w0 items w2
  assume a: "mapGet (Annotations obj) ''tarantool.io/rolesToAssign'' = Some a"
    and h: "blank w0 \<and> blank w2 \<and> items \<noteq> [] \<and> list_all okRoleItem items
            \<and> a = arrayText w0 (itemsText (map plainItem items)) w2"
  from h plainItems_ok [of items] have ok: "list_all okItem (map plainItem items)"
    and v: "map itemValue (map plainItem items) = map roleOf items" by simp_all
  from h have ne: "map plainItem items \<noteq> []" by simp
  have "Unmarshal_string a = None" "Unmarshal_strings a = Some (map roleOf items)"
    using h Unmarshal_string_bracket [OF skipSpace_arrayText [of w0 "itemsText (map plainItem items)" w2]]
      Unmarshal_strings_items [OF _ _ ne ok, of w0 w2] v
    by simp_all
  with a show "GetRoles obj = Inr (map roleOf items)"
    by (simp add: GetRoles_def)
next
  assume a: "mapGet (Annotations obj) ''tarantool.io/rolesToAssign'' = Some a"
  define A where "A = (\<exists>w1 b w2. blank w1 \<and> blank w2 \<and> validChars b \<and> a = stringText w1 b w2)"
  define B where "B = (\<exists>w1 w2. blank w1 \<and> blank w2 \<and> a = nullText w1 w2)"
  define C where "C = (\<exists>w0 w1 w2. blank w0 \<and> blank w1 \<and> blank w2 \<and> a = arrayText w0 w1 w2)"
  define D where "D = (\<exists>w0 items w2. blank w0 \<and> blank w2 \<and> items \<noteq> [] \<and> list_all okItem items
                   \<and> a = arrayText w0 (itemsText items) w2)"
  have okA: "\<exists>rs. GetRoles obj = Inr rs" if A
  proof -
    from that obtain w1 b w2 where "blank w1 \<and> blank w2 \<and> validChars b \<and> a = stringText w1 b w2"
      unfolding A_def by blast
    then have "Unmarshal_string a = Some (literalValue b)"
      by (simp add: Unmarshal_string_text)
    with a show ?thesis by (simp add: GetRoles_def)
  qed
  have okB: "\<exists>rs. GetRoles obj = Inr rs" if B
  proof -
    from that obtain w1 w2 where "blank w1 \<and> blank w2 \<and> a = nullText w1 w2"
      unfolding B_def by blast
    then have "Unmarshal_string a = Some []"
      by (simp add: Unmarshal_string_nullText)
    with a show ?thesis by (simp add: GetRoles_def)
  qed
  have okC: "\<exists>rs. GetRoles obj = Inr rs" if C
  proof -
    from that obtain w0 w1 w2 where "blank w0 \<and> blank w1 \<and> blank w2 \<and> a = arrayText w0 w1 w2"
      unfolding C_def by blast
    then have "Unmarshal_string a = None" "Unmarshal_strings a = Some []"
      using Unmarshal_string_bracket [OF skipSpace_arrayText [of w0 w1 w2]]
      by (simp_all add: Unmarshal_strings_empty)
    with a show ?thesis by (simp add: GetRoles_def)
  qed
  have okD: "\<exists>rs. GetRoles obj = Inr rs" if D
  proof -
    from that obtain w0 items w2 where "blank w0 \<and> blank w2 \<and> items \<noteq> [] \<and> list_all okItem items
                   \<and> a = arrayText w0 (itemsText items) w2"
      unfolding D_def by blast
    then have "Unmarshal_string a = None" "Unmarshal_strings a = Some (map itemValue items)"
      using Unmarshal_string_bracket [OF skipSpace_arrayText [of w0 "itemsText items" w2]]
      by (simp_all add: Unmarshal_strings_items)
    with a show ?thesis by (simp add: GetRoles_def)
  qed
  have err: "GetRoles obj = Inl (ErrNew ''failed to parse roles from annotations'')"
    if "\<not> A" "\<not> B" "\<not> C" "\<not> D"
  proof -
    have s: "A \<or> B" if "Unmarshal_string a = Some v" for v
      using Unmarshal_string_forms [OF that] unfolding A_def B_def .
    have ss: "B \<or> C \<or> D" if "Unmarshal_strings a = Some vs" for vs
      using Unmarshal_strings_forms [OF that] unfolding B_def C_def D_def .
    have "Unmarshal_string a = None"
      using s that(1,2) by (cases "Unmarshal_string a") blast+
    moreover have "Unmarshal_strings a = None"
      using ss that(2,3,4) by (cases "Unmarshal_strings a") blast+
    ultimately show ?thesis
      using a by (simp add: GetRoles_def)
  qed
  have "GetRoles obj = Inl (ErrNew ''failed to parse roles from annotations'') \<longleftrightarrow>
          \<not> A \<and> \<not> B \<and> \<not> C \<and> \<not> D"
    using okA okB okC okD err by (cases A; cases B; cases C; cases D) auto
  then show "GetRoles obj = Inl (ErrNew ''failed to parse roles from annotations'') \<longleftrightarrow>
            \<not> (\<exists>w1 b w2. blank w1 \<and> blank w2 \<and> validChars b \<and> a = stringText w1 b w2)
          \<and> \<not> (\<exists>w1 w2. blank w1 \<and> blank w2 \<and> a = nullText w1 w2)
          \<and> \<not> (\<exists>w0 w1 w2. blank w0 \<and> blank w1 \<and> blank w2 \<and> a = arrayText w0 w1 w2)
          \<and> \<not> (\<exists>w0 items w2. blank w0 \<and> blank w2 \<and> items \<noteq> [] \<and> list_all okItem items
                   \<and> a = arrayText w0 (itemsText items) w2)"
    unfolding A_def B_def C_def D_def .
next
  fix l
  assume "mapGet (Annotations obj) ''tarantool.io/rolesToAssign'' = None"
    "mapGet (Labels obj) ''tarantool.io/rolesToAssign'' = Some l"
  then show "GetRoles obj = Inr (Split l (CHR ''.''))"
    by (simp add: GetRoles_def)
next
  assume "mapGet (Annotations obj) ''tarantool.io/rolesToAssign'' = None"
    "mapGet (Labels obj) ''tarantool.io/rolesToAssign'' = None"
  then show "GetRoles obj = Inl (ErrNew ''role undefined'')"
    by (simp add: GetRoles_def)
qed

theorem GetRoles_cases_witness:
  "GetRoles (metaWith (Some [''tarantool.io/rolesToAssign'' \<mapsto> ''storage''])
                      (Some [''tarantool.io/rolesToAssign'' \<mapsto> ''\"router\"'']))
     = Inr [''router'']
   \<and> GetRoles (metaWith None
        (Some [''tarantool.io/rolesToAssign'' \<mapsto>
                 '' [\"storage\", \"vshard'' @ [CHR 0x5C] @ ''u002drouter\" ,null] '']))
     = Inr [''storage'', ''vshard-router'', []]
   \<and> GetRoles (metaWith None (Some [''tarantool.io/rolesToAssign'' \<mapsto> ''{\"role\": 1}'']))
     = Inl (ErrNew ''failed to parse roles from annotations'')
   \<and> \<not> (\<exists>w1 b w2. blank w1 \<and> blank w2 \<and> validChars b \<and> ''{\"role\": 1}'' = stringText w1 b w2)
   \<and> \<not> (\<exists>w0 items w2. blank w0 \<and> blank w2 \<and> items \<noteq> [] \<and> list_all okItem items
             \<and> ''{\"role\": 1}'' = arrayText w0 (itemsText items) w2)
   \<and> GetRoles (metaWith (Some [''tarantool.io/rolesToAssign'' \<mapsto> ''storage.router'']) None)
     = Inr [''storage'', ''router'']
   \<and> GetRoles (metaWith None None) = Inl (ErrNew ''role undefined'')"
proof -
  let ?key = "''tarantool.io/rolesToAssign''"
  let ?o1 = "metaWith (Some [?key \<mapsto> ''storage'']) (Some [?key \<mapsto> ''\"router\"''])"
  let ?a2 = "'' [\"storage\", \"vshard'' @ [CHR 0x5C] @ ''u002drouter\" ,null] ''"
  let ?o2 = "metaWith None (Some [?key \<mapsto> ?a2])"
  let ?a3 = "''{\"role\": 1}''"
  let ?o3 = "metaWith None (Some [?key \<mapsto> ?a3])"
  let ?o4 = "metaWith (Some [?key \<mapsto> ''storage.router'']) None"
  let ?o5 = "metaWith None None"
  let ?items = "[([], Some (map Plain ''storage''), []),
                ('' '', Some (map Plain ''vshard'' @ [Unicode ''002d''] @ map Plain ''router''), '' ''),
                ([], None, [])]"
  have p1: "mapGet (Annotations ?o1) ?key = Some ''\"router\"''"
    by (simp add: metaWith_def mapGet_def)
  have h1: "blank [] \<and> blank [] \<and> list_all okChar (map Plain ''router'')
              \<and> ''\"router\"'' = stringText [] (renderChars (map Plain ''router'')) []"
    by (simp add: stringText_def renderChars_def jsonQuote_def)
  have 1: "GetRoles ?o1 = Inr [charsValue (map Plain ''router'')]"
    by (rule GetRoles_cases [THEN conjunct1, THEN mp, OF p1, THEN conjunct2, THEN conjunct1,
          rule_format, OF h1])
  have p2: "mapGet (Annotations ?o2) ?key = Some ?a2"
    by (simp add: metaWith_def mapGet_def)
  have h2: "blank '' '' \<and> blank '' '' \<and> ?items \<noteq> [] \<and> list_all okRoleItem ?items
              \<and> ?a2 = arrayText '' '' (itemsText (map plainItem ?items)) '' ''"
    by (simp add: arrayText_def renderChars_def jsonQuote_def elemText_def blank_def isSpace_def
        hex4_def hexDigit_def hexNumber_def hexValue_def)
  have 2: "GetRoles ?o2 = Inr (map roleOf ?items)"
    by (rule GetRoles_cases [THEN conjunct1, THEN mp, OF p2, THEN conjunct2, THEN conjunct2,
          THEN conjunct2, THEN conjunct2, THEN conjunct2, THEN conjunct1, rule_format, OF h2])
  have p3: "mapGet (Annotations ?o3) ?key = Some ?a3"
    by (simp add: metaWith_def mapGet_def)
  have e3: "GetRoles ?o3 = Inl (ErrNew ''failed to parse roles from annotations'')"
    by (simp add: GetRoles_def mapGet_def metaWith_def Unmarshal_string_def Unmarshal_strings_def
        stringOrNull_def skipSpace_def isSpace_def)
  note 3 = GetRoles_cases [THEN conjunct1, THEN mp, OF p3, THEN conjunct2, THEN conjunct2,
          THEN conjunct2, THEN conjunct2, THEN conjunct2, THEN conjunct2, THEN iffD1, OF e3]
  have p4: "mapGet (Annotations ?o4) ?key = None" "mapGet (Labels ?o4) ?key = Some ''storage.router''"
    by (simp_all add: metaWith_def mapGet_def)
  have 4: "GetRoles ?o4 = Inr (Split ''storage.router'' (CHR ''.''))"
    by (rule GetRoles_cases [THEN conjunct2, THEN mp, OF p4(1), THEN conjunct1, rule_format, OF p4(2)])
  have p5: "mapGet (Annotations ?o5) ?key = None" "mapGet (Labels ?o5) ?key = None"
    by (simp_all add: metaWith_def mapGet_def)
  have 5: "GetRoles ?o5 = Inl (ErrNew ''role undefined'')"
    by (rule GetRoles_cases [THEN conjunct2, THEN mp, OF p5(1), THEN conjunct2, THEN mp, OF p5(2)])
  from 1 2 e3 3 4 5 show ?thesis
    by (simp add: charsValue_def utf8_def hexNumber_def hexValue_def char_of_eq_iff)
qed

subsection \<open>Evaluating a pass\<close>

text \<open>
  Groups, statistics and the facts the simplifier needs to run a pass on concrete
  objects.
\<close>

definition storedAnnotation :: "world \<Rightarrow> string \<Rightarrow> string \<Rightarrow> string option" where
  "storedAnnotation w name key =
     (case statefulsets w name of None \<Rightarrow> None | Some sts \<Rightarrow> mapGet (Annotations sts) key)"

definition groupLabels :: "string \<rightharpoonup> string" where
  "groupLabels =
     [''tarantool.io/replicaset-uuid'' \<mapsto> ''11111111-1111-1111-1111-111111111111'',
      ''tarantool.io/rolesToAssign'' \<mapsto> ''storage'']"

definition groupWith :: "string \<Rightarrow> int \<Rightarrow> (string \<rightharpoonup> string) \<Rightarrow> StatefulSet" where
  "groupWith name n annotations =
     \<lparr>Name = name, Namespace = ''default'', Labels = Some groupLabels,
      Annotations = Some annotations, Replicas = n\<rparr>"

definition statOf :: "string \<Rightarrow> int \<Rightarrow> ServerStat" where
  "statOf name buckets =
     \<lparr>Statistics = \<lparr>BucketsCount = buckets\<rparr>, UUID = uuidString (NewSHA1 space name),
      URI = name @ ''.cluster.default.svc.cluster.local:3301''\<rparr>"

lemma itoa_small [simp]: "itoa 0 = ''0''" "itoa (Suc 0) = ''1''" "itoa 1 = ''1''" "itoa 2 = ''2''"
  by (simp_all add: itoa.simps digitChar_def)

lemma upt_small [simp]: "[0..<1] = [0]" "[0..<2] = [0, 1]" "[0..<3] = [0, 1, 2]"
  by code_simp+

lemma joinedPod_simps [simp]:
  "HasInstanceUUID (joinedPod name)" "IsJoined (joinedPod name)" "Name (joinedPod name) = name"
  by (simp_all add: joinedPod_def MarkJoined_def assignedPod_def newPod_def HasInstanceUUID_def
      IsJoined_def mapGet_def)

lemmas scenario_defs =
  replicaIndices_def groupWith_def kGetPod_def kUpdatePod_def kUpdateSts_def kUpdateStatus_def
  podName_def quietEnv_def emit_def mapGet_def mapSet_def mapIndex_def groupLabels_def statOf_def
  Let_def

lemmas stage_defs =
  instanceStep_def uuidStep_def joinStep_def weightStep_def drainCheck_def joinedStep_def
  rolesStep_def bootstrapStep_def GetServerStat_def SetWeight_def ParseUint_def isDigit_def
  GetReplicasetRolesFromService_def SetReplicasetRoles_def BootstrapVshard_def SetFailover_def
  GetRoles_def IsRolesEquals_def Join_def IsAlreadyJoined_def IsTopologyDown_def
  IsAlreadyBootstrapped_def requeueAfter5_def requeueNow_def noRequeue_def


subsection \<open>Scheduled deletion of a draining group\<close>

text \<open>
  A group \<^verbatim>\<open>rs-A\<close> with weight \<^verbatim>\<open>"0"\<close> and two joined instances; the
  service reports no buckets on \<^verbatim>\<open>rs-A-0\<close> and five on \<^verbatim>\<open>rs-A-1\<close>.
\<close>

definition drainingGroup :: StatefulSet where
  "drainingGroup =
     groupWith ''rs-A'' 2
       [''tarantool.io/replicaset-weight'' \<mapsto> ''0'',
        ''tarantool.io/isBootstrapped'' \<mapsto> ''1'',
        ''tarantool.io/failoverEnabled'' \<mapsto> ''1'']"

definition drainingWorld :: world where
  "drainingWorld =
     \<lparr>pods = [''rs-A-0'' \<mapsto> joinedPod ''rs-A-0'', ''rs-A-1'' \<mapsto> joinedPod ''rs-A-1''],
      statefulsets = [''rs-A'' \<mapsto> drainingGroup],
      clusterState = ''Ready'', trace = []\<rparr>"

definition mixedBuckets :: env where
  "mixedBuckets =
     quietEnv\<lparr>runServerStat :=
       (\<lambda>k. Inr \<lparr>Stats = [Some (statOf ''rs-A-0'' 0), Some (statOf ''rs-A-1'' 5)]\<rparr>)\<rparr>"

definition flaggedGroup :: StatefulSet where
  "flaggedGroup =
     groupWith ''rs-A'' 2
       [''tarantool.io/replicaset-weight'' \<mapsto> ''0'',
        ''tarantool.io/isBootstrapped'' \<mapsto> ''1'',
        ''tarantool.io/failoverEnabled'' \<mapsto> ''1'',
        ''tarantool.io/scheduledDelete'' \<mapsto> ''1'']"

definition flaggedWorld :: "call list \<Rightarrow> world" where
  "flaggedWorld calls = drainingWorld\<lparr>statefulsets := [''rs-A'' \<mapsto> flaggedGroup], trace := calls\<rparr>"

lemma draining_instance_stage:
  "forEach (instanceStep mixedBuckets clientA) [drainingGroup] drainingWorld = Continue drainingWorld"
  by (simp add: instanceStep_def replicaIndices_def drainingGroup_def groupWith_def uuidStep_def
      joinStep_def kGetPod_def podName_def mixedBuckets_def quietEnv_def drainingWorld_def)

lemma draining_weight_stage:
  "forEachMap (weightStep mixedBuckets clientA) [drainingGroup] drainingWorld
     = Continue ([flaggedGroup],
         flaggedWorld [QueryServerStat, UpdateStatefulSet flaggedGroup,
                       EditReplicasetWeight ''11111111-1111-1111-1111-111111111111'' 0])"
  by (simp add: stage_defs scenario_defs mixedBuckets_def drainingGroup_def drainingWorld_def
      flaggedGroup_def flaggedWorld_def)

lemma draining_roles_stage:
  "forEach (rolesStep mixedBuckets clientA) [flaggedGroup] (flaggedWorld calls)
     = Continue (flaggedWorld (calls @ [QueryReplicasetRoles ''11111111-1111-1111-1111-111111111111'']))"
  by (simp add: stage_defs scenario_defs mixedBuckets_def flaggedGroup_def flaggedWorld_def Split.simps)

lemma draining_bootstrap_stage:
  "forEach (bootstrapStep mixedBuckets clientA) [flaggedGroup] w = Continue w"
  by (simp add: stage_defs scenario_defs mixedBuckets_def flaggedGroup_def)


text \<open>
  C1. The loop over the statistics sets the annotation at every entry of the group
  that reports zero buckets, without looking at the other entries: in the pass below
  one instance still holds five buckets and the group is written to the store with
  \<^verbatim>\<open>tarantool.io/scheduledDelete\<close> set to \<^verbatim>\<open>"1"\<close>. The claim (the flag
  stays unset unless every instance reports zero) does not hold of the code.
\<close>

theorem drain_flag_set_with_resident_buckets:
  "runServerStat mixedBuckets 0 = Inr \<lparr>Stats = [Some (statOf ''rs-A-0'' 0), Some (statOf ''rs-A-1'' 5)]\<rparr>
   \<and> Reconcile mixedBuckets clientA [drainingGroup] drainingWorld
       = Return noRequeue None
           (flaggedWorld [QueryServerStat, UpdateStatefulSet flaggedGroup,
              EditReplicasetWeight ''11111111-1111-1111-1111-111111111111'' 0,
              QueryReplicasetRoles ''11111111-1111-1111-1111-111111111111''])
   \<and> storedAnnotation (endWorld (Reconcile mixedBuckets clientA [drainingGroup] drainingWorld))
         ''rs-A'' ''tarantool.io/scheduledDelete'' = Some ''1''"
proof -
  have r: "Reconcile mixedBuckets clientA [drainingGroup] drainingWorld
       = Return noRequeue None
           (flaggedWorld [QueryServerStat, UpdateStatefulSet flaggedGroup,
              EditReplicasetWeight ''11111111-1111-1111-1111-111111111111'' 0,
              QueryReplicasetRoles ''11111111-1111-1111-1111-111111111111''])"
    by (simp only: Reconcile_def draining_instance_stage draining_weight_stage draining_roles_stage
        draining_bootstrap_stage flow.case prod.case append.simps)
  have s: "runServerStat mixedBuckets 0 = Inr \<lparr>Stats = [Some (statOf ''rs-A-0'' 0), Some (statOf ''rs-A-1'' 5)]\<rparr>"
    by (simp add: mixedBuckets_def)
  show ?thesis
    unfolding r using s
    by (simp add: endWorld_def storedAnnotation_def flaggedWorld_def flaggedGroup_def groupWith_def mapGet_def)
qed


subsection \<open>Recording a bootstrap\<close>

text \<open>
  A group that is marked neither bootstrapped nor failover-enabled, with its one
  instance joined, and a service that answers \<^verbatim>\<open>bootstrap_vshard\<close> either with
  plain success (\<open>quietEnv\<close>) or with the error ``already bootstrapped''.
\<close>

definition freshGroup :: StatefulSet where
  "freshGroup = groupWith ''rs-A'' 1 [''tarantool.io/replicaset-weight'' \<mapsto> ''1'']"

definition failoverGroup :: StatefulSet where
  "failoverGroup =
     groupWith ''rs-A'' 1
       [''tarantool.io/replicaset-weight'' \<mapsto> ''1'', ''tarantool.io/failoverEnabled'' \<mapsto> ''1'']"

definition bootstrappedGroup :: StatefulSet where
  "bootstrappedGroup =
     groupWith ''rs-A'' 1
       [''tarantool.io/replicaset-weight'' \<mapsto> ''1'', ''tarantool.io/isBootstrapped'' \<mapsto> ''1'']"

definition freshWorld :: "StatefulSet \<Rightarrow> string \<Rightarrow> call list \<Rightarrow> world" where
  "freshWorld sts state calls =
     \<lparr>pods = [''rs-A-0'' \<mapsto> joinedPod ''rs-A-0''], statefulsets = [''rs-A'' \<mapsto> sts],
      clusterState = state, trace = calls\<rparr>"

definition alreadyBootstrapped :: env where
  "alreadyBootstrapped =
     quietEnv\<lparr>postBootstrap :=
       (\<lambda>k. Decoded \<lparr>Data = Some False,
                        Errors = [Some \<lparr>Message = ''Cluster is already bootstrapped''\<rparr>]\<rparr>)\<rparr>"

lemma fresh_instance_stage:
  "forEach (instanceStep e clientA) [freshGroup] (freshWorld sts st calls) = Continue (freshWorld sts st calls)"
  if "getFault e = (\<lambda>k name. None)"
  using that
  by (simp add: instanceStep_def uuidStep_def joinStep_def scenario_defs freshGroup_def freshWorld_def)

lemma fresh_weight_stage:
  "forEachMap (weightStep e clientA) [freshGroup] (freshWorld sts st [])
     = Continue ([freshGroup],
         freshWorld sts st [EditReplicasetWeight ''11111111-1111-1111-1111-111111111111'' 1])"
  if "getFault e = (\<lambda>k name. None)" "runEditWeight e = (\<lambda>k u n. Inr True)"
  using that
  by (simp add: stage_defs scenario_defs freshGroup_def freshWorld_def)

lemma fresh_roles_stage:
  "forEach (rolesStep e clientA) [freshGroup] (freshWorld sts st calls)
     = Continue (freshWorld sts st (calls @ [QueryReplicasetRoles ''11111111-1111-1111-1111-111111111111'']))"
  if "runQueryRoles e = (\<lambda>k u. Inr [Some \<lparr>Roles = [''storage'']\<rparr>])"
  using that
  by (simp add: stage_defs scenario_defs freshGroup_def freshWorld_def Split.simps)

lemma fresh_bootstrap_success:
  "forEach (bootstrapStep quietEnv clientA) [freshGroup] (freshWorld freshGroup st calls)
     = Continue (freshWorld failoverGroup st
         (calls @ [PostBootstrapVshard, ChangeFailover True, UpdateStatefulSet failoverGroup]))"
  by (simp add: stage_defs scenario_defs freshGroup_def freshWorld_def failoverGroup_def)

lemma fresh_bootstrap_already:
  "forEach (bootstrapStep alreadyBootstrapped clientA) [freshGroup] (freshWorld freshGroup st calls)
     = Return requeueAfter5 None (freshWorld bootstrappedGroup ''Ready''
         (calls @ [PostBootstrapVshard, UpdateStatefulSet bootstrappedGroup, UpdateClusterStatus ''Ready'']))"
  by (simp add: stage_defs scenario_defs freshGroup_def freshWorld_def bootstrappedGroup_def
      alreadyBootstrapped_def)

lemma quietEnv_simps:
  "getFault quietEnv = (\<lambda>k name. None)" "runEditWeight quietEnv = (\<lambda>k u n. Inr True)"
  "runQueryRoles quietEnv = (\<lambda>k u. Inr [Some \<lparr>Roles = [''storage'']\<rparr>])"
  "getFault alreadyBootstrapped = (\<lambda>k name. None)"
  "runEditWeight alreadyBootstrapped = (\<lambda>k u n. Inr True)"
  "runQueryRoles alreadyBootstrapped = (\<lambda>k u. Inr [Some \<lparr>Roles = [''storage'']\<rparr>])"
  by (simp_all add: quietEnv_def alreadyBootstrapped_def)

lemma already_bootstrapped_is_recorded:
  "Reconcile alreadyBootstrapped clientA [freshGroup] (freshWorld freshGroup [] [])
     = Return requeueAfter5 None
         (freshWorld bootstrappedGroup ''Ready''
            [EditReplicasetWeight ''11111111-1111-1111-1111-111111111111'' 1,
             QueryReplicasetRoles ''11111111-1111-1111-1111-111111111111'',
             PostBootstrapVshard, UpdateStatefulSet bootstrappedGroup, UpdateClusterStatus ''Ready''])"
  by (simp only: Reconcile_def fresh_instance_stage fresh_weight_stage fresh_roles_stage
      fresh_bootstrap_already quietEnv_simps flow.case prod.case append.simps)


text \<open>
  C2. When \<^verbatim>\<open>BootstrapVshard\<close> returns \<^verbatim>\<open>nil\<close> the pass goes on to the
  failover step and ends without writing \<^verbatim>\<open>tarantool.io/isBootstrapped\<close> and
  without touching the cluster status; only the ``already bootstrapped'' answer
  (\<open>already_bootstrapped_is_recorded\<close>) sets the flag and the status
  \<^verbatim>\<open>Ready\<close>. The claim (both outcomes set the flag and the status) does not hold
  of the code for plain success.
\<close>

theorem bootstrap_success_not_recorded:
  "postBootstrap quietEnv 2 = Decoded \<lparr>Data = Some True, Errors = []\<rparr>
   \<and> Reconcile quietEnv clientA [freshGroup] (freshWorld freshGroup [] [])
       = Return noRequeue None
           (freshWorld failoverGroup []
              [EditReplicasetWeight ''11111111-1111-1111-1111-111111111111'' 1,
               QueryReplicasetRoles ''11111111-1111-1111-1111-111111111111'',
               PostBootstrapVshard, ChangeFailover True, UpdateStatefulSet failoverGroup])
   \<and> storedAnnotation (endWorld (Reconcile quietEnv clientA [freshGroup] (freshWorld freshGroup [] [])))
         ''rs-A'' ''tarantool.io/isBootstrapped'' = None
   \<and> clusterState (endWorld (Reconcile quietEnv clientA [freshGroup] (freshWorld freshGroup [] []))) = []"
proof -
  have r: "Reconcile quietEnv clientA [freshGroup] (freshWorld freshGroup [] [])
       = Return noRequeue None
           (freshWorld failoverGroup []
              [EditReplicasetWeight ''11111111-1111-1111-1111-111111111111'' 1,
               QueryReplicasetRoles ''11111111-1111-1111-1111-111111111111'',
               PostBootstrapVshard, ChangeFailover True, UpdateStatefulSet failoverGroup])"
    by (simp only: Reconcile_def fresh_instance_stage fresh_weight_stage fresh_roles_stage
        fresh_bootstrap_success quietEnv_simps flow.case prod.case append.simps)
  have s: "postBootstrap quietEnv 2 = Decoded \<lparr>Data = Some True, Errors = []\<rparr>"
    by (simp add: quietEnv_def)
  show ?thesis
    unfolding r using s
    by (simp add: endWorld_def storedAnnotation_def freshWorld_def failoverGroup_def groupWith_def mapGet_def)
qed



subsection \<open>Weight changes wait for the joins\<close>

definition endWorld2 :: "('a \<times> world) flow \<Rightarrow> world" where
  "endWorld2 f = (case f of Continue (x, w) \<Rightarrow> w | Return r err w \<Rightarrow> w | Panic p w \<Rightarrow> w)"

lemma endWorld_simps [simp]:
  "endWorld (Continue w) = w" "endWorld (Return r err w) = w" "endWorld (Panic p w) = w"
  by (simp_all add: endWorld_def)

lemma endWorld2_simps [simp]:
  "endWorld2 (Continue (x, w)) = w" "endWorld2 (Return r err w) = w" "endWorld2 (Panic p w) = w"
  by (simp_all add: endWorld2_def)



text \<open>The steps that never ask for a weight change.\<close>

definition noWeightCall :: "string \<Rightarrow> world \<Rightarrow> bool" where
  "noWeightCall u w = list_all (\<lambda>c. case c of EditReplicasetWeight u' n \<Rightarrow> u' \<noteq> u | _ \<Rightarrow> True) (trace w)"

lemma noWeightCall_emit:
  "noWeightCall u (emit c w) = (noWeightCall u w \<and> (case c of EditReplicasetWeight u' n \<Rightarrow> u' \<noteq> u | _ \<Rightarrow> True))"
  by (simp add: noWeightCall_def emit_def)

lemma noWeightCall_upd [simp]:
  "noWeightCall u (w\<lparr>pods := ps\<rparr>) = noWeightCall u w"
  "noWeightCall u (w\<lparr>statefulsets := ss\<rparr>) = noWeightCall u w"
  "noWeightCall u (w\<lparr>clusterState := st\<rparr>) = noWeightCall u w"
  by (simp_all add: noWeightCall_def)


lemma kUpdateSts_noWeightCall:
  "noWeightCall u w \<Longrightarrow> noWeightCall u (snd (kUpdateSts e sts w))"
  by (simp add: kUpdateSts_def noWeightCall_emit split: option.splits)

lemma kUpdateStatus_noWeightCall:
  "kUpdateStatus e st w = (r, w') \<Longrightarrow> noWeightCall u w \<Longrightarrow> noWeightCall u w'"
  by (auto simp: kUpdateStatus_def noWeightCall_emit split: option.splits)






text \<open>A step that leaves the pods alone and asks for no weight change.\<close>

definition otherCall :: "call \<Rightarrow> bool" where
  "otherCall c = (case c of EditReplicasetWeight u n \<Rightarrow> False | _ \<Rightarrow> True)"

definition quietStep :: "world \<Rightarrow> world \<Rightarrow> bool" where
  "quietStep w w' = (pods w' = pods w \<and> (\<exists>cs. trace w' = trace w @ cs \<and> list_all otherCall cs))"

lemma quietStep_refl [simp]: "quietStep w w"
  by (simp add: quietStep_def)




































lemma assignedPod_simps [simp]:
  "HasInstanceUUID (assignedPod name)" "\<not> IsJoined (assignedPod name)" "Name (assignedPod name) = name"
  by (simp_all add: assignedPod_def newPod_def HasInstanceUUID_def IsJoined_def mapGet_def)













subsection \<open>Identity and join, one instance at a time\<close>

text \<open>
  The first loop over the groups runs, for each group in turn, the loop that assigns
  the identifiers and then the loop that joins the instances. \<open>podState\<close> reads one
  instance of a group from the store and tests it; a group is settled when each of its
  instances has its identifier and its joined marker, and the first loop passes over a
  settled group without a request.
\<close>

definition podState :: "env \<Rightarrow> world \<Rightarrow> StatefulSet \<Rightarrow> (Pod \<Rightarrow> bool) \<Rightarrow> nat \<Rightarrow> bool" where
  "podState e w sts P i = (case kGetPod e w (podName sts i) of Inl err \<Rightarrow> False | Inr pod \<Rightarrow> P pod)"

definition settledGroup :: "env \<Rightarrow> world \<Rightarrow> StatefulSet \<Rightarrow> bool" where
  "settledGroup e w sts =
     list_all (podState e w sts (\<lambda>pod. HasInstanceUUID pod \<and> IsJoined pod)) (replicaIndices sts)"

text \<open>
  The scenarios: a group that needs nothing from the later stages of the pass, a world
  over a given set of pods, and three sets of pods.
\<close>

definition steadyGroup :: "string \<Rightarrow> int \<Rightarrow> StatefulSet" where
  "steadyGroup name n =
     groupWith name n
       [''tarantool.io/replicaset-weight'' \<mapsto> ''1'',
        ''tarantool.io/isBootstrapped'' \<mapsto> ''1'',
        ''tarantool.io/failoverEnabled'' \<mapsto> ''1'']"

definition worldOf :: "(string \<rightharpoonup> Pod) \<Rightarrow> call list \<Rightarrow> world" where
  "worldOf ps calls = \<lparr>pods = ps, statefulsets = Map.empty, clusterState = ''Ready'', trace = calls\<rparr>"

definition pairPods :: "string \<rightharpoonup> Pod" where
  "pairPods = [''rs-A-0'' \<mapsto> assignedPod ''rs-A-0'', ''rs-A-1'' \<mapsto> assignedPod ''rs-A-1'']"


definition storeRefuses :: "env \<Rightarrow> env" where
  "storeRefuses e = e\<lparr>updateFault := (\<lambda>k. Some ''conflict'')\<rparr>"


lemma forEach_append:
  "forEach body (xs @ ys) w =
     (case forEach body xs w of
        Continue w' \<Rightarrow> forEach body ys w'
      | Return r err w' \<Rightarrow> Return r err w'
      | Panic p w' \<Rightarrow> Panic p w')"
  by (induction xs arbitrary: w) (auto split: flow.splits)

lemma uuid_loop_skips:
  "list_all (podState e w sts HasInstanceUUID) idxs \<Longrightarrow> forEach (uuidStep e sts) idxs w = Continue w"
  by (induction idxs) (auto simp: podState_def uuidStep_def split: sum.splits)

lemma join_loop_skips:
  "list_all (podState e w sts IsJoined) idxs \<Longrightarrow> forEach (joinStep e s sts) idxs w = Continue w"
  by (induction idxs) (auto simp: podState_def joinStep_def split: sum.splits)

lemma podState_mono:
  "list_all (podState e w sts P) idxs \<Longrightarrow> (\<And>pod. P pod \<Longrightarrow> Q pod) \<Longrightarrow> list_all (podState e w sts Q) idxs"
  by (induction idxs) (auto simp: podState_def split: sum.splits)

lemma settled_group_skips:
  "settledGroup e w sts \<Longrightarrow> instanceStep e s sts w = Continue w"
  unfolding settledGroup_def instanceStep_def
  using uuid_loop_skips [of e w sts "replicaIndices sts"] join_loop_skips [of e w sts "replicaIndices sts" s]
    podState_mono [of e w sts "\<lambda>pod. HasInstanceUUID pod \<and> IsJoined pod" "replicaIndices sts" HasInstanceUUID]
    podState_mono [of e w sts "\<lambda>pod. HasInstanceUUID pod \<and> IsJoined pod" "replicaIndices sts" IsJoined]
  by simp

lemma settled_groups_skip:
  "list_all (settledGroup e w) gpre \<Longrightarrow>
     forEach (instanceStep e s) (gpre @ rest) w = forEach (instanceStep e s) rest w"
  by (induction gpre) (auto simp: settled_group_skips)

lemma MarkJoined_assignedPod [simp]: "MarkJoined (assignedPod name) = joinedPod name"
  by (simp add: joinedPod_def)

lemma newPod_simps [simp]:
  "\<not> HasInstanceUUID (newPod name)" "\<not> IsJoined (newPod name)" "Name (newPod name) = name"
  by (simp_all add: newPod_def HasInstanceUUID_def IsJoined_def mapGet_def baseLabels_def)

lemma pair_already_joined:
  "Reconcile (joinFails ''graphql: already joined'') clientA [steadyGroup ''rs-A'' 2] (worldOf pairPods [])
     = Return noRequeue None
         (worldOf (pairPods(''rs-A-0'' \<mapsto> joinedPod ''rs-A-0'', ''rs-A-1'' \<mapsto> joinedPod ''rs-A-1''))
            [JoinServer (joinRequestOf ''rs-A-0''), UpdatePod (joinedPod ''rs-A-0''),
             JoinServer (joinRequestOf ''rs-A-1''), UpdatePod (joinedPod ''rs-A-1''),
             EditReplicasetWeight ''11111111-1111-1111-1111-111111111111'' 1,
             QueryReplicasetRoles ''11111111-1111-1111-1111-111111111111''])"
  by (simp add: Reconcile_def stage_defs scenario_defs steadyGroup_def worldOf_def pairPods_def
      joinFails_def)

lemma pair_topology_down:
  "Reconcile (joinFails ''graphql: This instance isn't bootstrapped yet'') clientA
       [steadyGroup ''rs-A'' 2] (worldOf pairPods [])
     = Return requeueAfter5 None
         (worldOf pairPods [JoinServer (joinRequestOf ''rs-A-0''), JoinServer (joinRequestOf ''rs-A-1'')])"
  by (simp add: Reconcile_def stage_defs scenario_defs steadyGroup_def worldOf_def pairPods_def
      joinFails_def)


text \<open>
  C3, as the claim states it, fails for two of the three outcomes it names. When the
  service answers that the instance is already joined, the pass marks the instance and
  goes on to the next instance, and from there to the later stages; when the service
  answers that the topology is down, the pass goes on to the next instance as well. In
  a group of two instances with their identifiers, both get a join request in one pass.
\<close>

theorem join_stage_goes_on_counterexample:
  "trace (endWorld (Reconcile (joinFails ''graphql: already joined'') clientA
                      [steadyGroup ''rs-A'' 2] (worldOf pairPods [])))
     = [JoinServer (joinRequestOf ''rs-A-0''), UpdatePod (joinedPod ''rs-A-0''),
        JoinServer (joinRequestOf ''rs-A-1''), UpdatePod (joinedPod ''rs-A-1''),
        EditReplicasetWeight ''11111111-1111-1111-1111-111111111111'' 1,
        QueryReplicasetRoles ''11111111-1111-1111-1111-111111111111'']
   \<and> trace (endWorld (Reconcile (joinFails ''graphql: This instance isn't bootstrapped yet'') clientA
                        [steadyGroup ''rs-A'' 2] (worldOf pairPods [])))
     = [JoinServer (joinRequestOf ''rs-A-0''), JoinServer (joinRequestOf ''rs-A-1'')]"
  unfolding pair_already_joined pair_topology_down
  by (simp add: worldOf_def)

text \<open>
  C3, amended. In a pass that reaches the instance stage with every group before
  \<open>g\<close> settled and every instance of \<open>g\<close> holding its identifier (the store answering
  the reads), let \<open>i\<close> be the first instance of \<open>g\<close> without the joined marker;
  \<open>res\<close> is what \<^verbatim>\<open>Join\<close> returns for it and \<open>upd\<close> what the store answers to the
  update that sets the marker. If the join
  succeeds the instance is marked and the pass returns at once, asking to be run again in
  five seconds. If the service reports the instance as already joined, the instance is
  marked and the scan goes on with the instances after \<open>i\<close> and the groups after \<open>g\<close>.
  In both cases a store that refuses the update ends the pass at once with the store's
  error. If the topology service is down, the scan goes on in the same way with the
  instance unmarked and no update made. Any other error of the join ends the pass at
  once, asking to be run again in five seconds, with the instance unmarked.
\<close>

theorem join_attempt_outcomes:
  assumes settled: "list_all (settledGroup e w) gpre"
    and assigned: "list_all (podState e w g HasInstanceUUID) (replicaIndices g)"
    and idx: "replicaIndices g = ipre @ i # ipost"
    and before: "list_all (podState e w g IsJoined) ipre"
    and pod: "kGetPod e w (podName g i) = Inr pod"
    and unjoined: "\<not> IsJoined pod"
    and join: "Join e s pod w = (res, w1)"
    and store: "kUpdatePod e (MarkJoined pod) w1 = (upd, w2)"
  shows "(res = None \<and> upd = None \<longrightarrow>
            Reconcile e s (gpre @ g # gpost) w = Return requeueAfter5 None w2)
       \<and> (res = Some ErrAlreadyJoined \<and> upd = None \<longrightarrow>
            forEach (instanceStep e s) (gpre @ g # gpost) w
              = (case forEach (joinStep e s g) ipost w2 of
                   Continue w3 \<Rightarrow> forEach (instanceStep e s) gpost w3
                 | Return r err w3 \<Rightarrow> Return r err w3
                 | Panic p w3 \<Rightarrow> Panic p w3))
       \<and> (\<forall>err'. (res = None \<or> res = Some ErrAlreadyJoined) \<and> upd = Some err' \<longrightarrow>
            Reconcile e s (gpre @ g # gpost) w = Return requeueAfter5 (Some err') w2)
       \<and> (res = Some ErrTopologyIsDown \<longrightarrow>
            forEach (instanceStep e s) (gpre @ g # gpost) w
              = (case forEach (joinStep e s g) ipost w1 of
                   Continue w3 \<Rightarrow> forEach (instanceStep e s) gpost w3
                 | Return r err w3 \<Rightarrow> Return r err w3
                 | Panic p w3 \<Rightarrow> Panic p w3))
       \<and> (\<forall>err. res = Some err \<and> err \<noteq> ErrAlreadyJoined \<and> err \<noteq> ErrTopologyIsDown \<longrightarrow>
            Reconcile e s (gpre @ g # gpost) w = Return requeueAfter5 None w1)"
proof -
  have loop: "forEach (joinStep e s g) (ipre @ i # ipost) w
      = (case joinStep e s g i w of
           Continue w' \<Rightarrow> forEach (joinStep e s g) ipost w'
         | Return r err w' \<Rightarrow> Return r err w'
         | Panic p w' \<Rightarrow> Panic p w')"
    using join_loop_skips [OF before, of s] by (simp add: forEach_append)
  have inst: "instanceStep e s g w
      = (case joinStep e s g i w of
           Continue w' \<Rightarrow> forEach (joinStep e s g) ipost w'
         | Return r err w' \<Rightarrow> Return r err w'
         | Panic p w' \<Rightarrow> Panic p w')"
    using uuid_loop_skips [OF assigned] loop by (simp add: instanceStep_def idx)
  have stage: "forEach (instanceStep e s) (gpre @ g # gpost) w
      = (case instanceStep e s g w of
           Continue w' \<Rightarrow> forEach (instanceStep e s) gpost w'
         | Return r err w' \<Rightarrow> Return r err w'
         | Panic p w' \<Rightarrow> Panic p w')"
    by (simp add: settled_groups_skip [OF settled])
  have a: "joinStep e s g i w = Return requeueAfter5 None w2" if "res = None" "upd = None"
    using that pod unjoined join store by (simp add: joinStep_def)
  have b: "joinStep e s g i w = Continue w2" if "res = Some ErrAlreadyJoined" "upd = None"
    using that pod unjoined join store by (simp add: joinStep_def IsAlreadyJoined_def)
  have r: "joinStep e s g i w = Return requeueAfter5 (Some err') w2"
    if "res = None \<or> res = Some ErrAlreadyJoined" "upd = Some err'" for err'
    using that pod unjoined join store by (auto simp: joinStep_def IsAlreadyJoined_def)
  have c: "joinStep e s g i w = Continue w1" if "res = Some ErrTopologyIsDown"
    using that pod unjoined join by (simp add: joinStep_def IsAlreadyJoined_def IsTopologyDown_def)
  have d: "joinStep e s g i w = Return requeueAfter5 None w1"
    if "res = Some err" "err \<noteq> ErrAlreadyJoined" "err \<noteq> ErrTopologyIsDown" for err
    using that pod unjoined join by (simp add: joinStep_def IsAlreadyJoined_def IsTopologyDown_def)
  show ?thesis
  proof (intro conjI impI allI)
    assume "res = None \<and> upd = None"
    then show "Reconcile e s (gpre @ g # gpost) w = Return requeueAfter5 None w2"
      using a by (simp add: Reconcile_def stage inst)
  next
    assume "res = Some ErrAlreadyJoined \<and> upd = None"
    then show "forEach (instanceStep e s) (gpre @ g # gpost) w
              = (case forEach (joinStep e s g) ipost w2 of
                   Continue w3 \<Rightarrow> forEach (instanceStep e s) gpost w3
                 | Return r err w3 \<Rightarrow> Return r err w3
                 | Panic p w3 \<Rightarrow> Panic p w3)"
      using b by (simp add: stage inst)
  next
    fix err'
    assume "(res = None \<or> res = Some ErrAlreadyJoined) \<and> upd = Some err'"
    then show "Reconcile e s (gpre @ g # gpost) w = Return requeueAfter5 (Some err') w2"
      using r [of err'] by (simp add: Reconcile_def stage inst)
  next
    assume "res = Some ErrTopologyIsDown"
    then show "forEach (instanceStep e s) (gpre @ g # gpost) w
              = (case forEach (joinStep e s g) ipost w1 of
                   Continue w3 \<Rightarrow> forEach (instanceStep e s) gpost w3
                 | Return r err w3 \<Rightarrow> Return r err w3
                 | Panic p w3 \<Rightarrow> Panic p w3)"
      using c by (simp add: stage inst)
  next
    fix err
    assume "res = Some err \<and> err \<noteq> ErrAlreadyJoined \<and> err \<noteq> ErrTopologyIsDown"
    then show "Reconcile e s (gpre @ g # gpost) w = Return requeueAfter5 None w1"
      using d [of err] by (simp add: Reconcile_def stage inst)
  qed
qed

theorem join_attempt_outcomes_witness:
  "list_all (podState quietEnv (worldOf pairPods []) (steadyGroup ''rs-A'' 2) HasInstanceUUID)
      (replicaIndices (steadyGroup ''rs-A'' 2))
   \<and> kGetPod quietEnv (worldOf pairPods []) (podName (steadyGroup ''rs-A'' 2) 0) = Inr (assignedPod ''rs-A-0'')
   \<and> \<not> IsJoined (assignedPod ''rs-A-0'')
   \<and> Join quietEnv clientA (assignedPod ''rs-A-0'') (worldOf pairPods [])
       = (None, worldOf pairPods [JoinServer (joinRequestOf ''rs-A-0'')])
   \<and> Reconcile quietEnv clientA [steadyGroup ''rs-A'' 2] (worldOf pairPods [])
       = Return requeueAfter5 None
           (worldOf (pairPods(''rs-A-0'' \<mapsto> joinedPod ''rs-A-0''))
              [JoinServer (joinRequestOf ''rs-A-0''), UpdatePod (joinedPod ''rs-A-0'')])
   \<and> Join (joinFails ''graphql: already joined'') clientA (assignedPod ''rs-A-0'') (worldOf pairPods [])
       = (Some ErrAlreadyJoined, worldOf pairPods [JoinServer (joinRequestOf ''rs-A-0'')])
   \<and> forEach (instanceStep (joinFails ''graphql: already joined'') clientA) [steadyGroup ''rs-A'' 2]
         (worldOf pairPods [])
       = forEach (joinStep (joinFails ''graphql: already joined'') clientA (steadyGroup ''rs-A'' 2)) [1]
           (worldOf (pairPods(''rs-A-0'' \<mapsto> joinedPod ''rs-A-0''))
              [JoinServer (joinRequestOf ''rs-A-0''), UpdatePod (joinedPod ''rs-A-0'')])
   \<and> kUpdatePod (storeRefuses (joinFails ''graphql: already joined'')) (MarkJoined (assignedPod ''rs-A-0''))
         (worldOf pairPods [JoinServer (joinRequestOf ''rs-A-0'')])
       = (Some (ErrKube ''conflict''),
          worldOf pairPods [JoinServer (joinRequestOf ''rs-A-0''), UpdatePod (joinedPod ''rs-A-0'')])
   \<and> Reconcile (storeRefuses (joinFails ''graphql: already joined'')) clientA [steadyGroup ''rs-A'' 2]
         (worldOf pairPods [])
       = Return requeueAfter5 (Some (ErrKube ''conflict''))
           (worldOf pairPods [JoinServer (joinRequestOf ''rs-A-0''), UpdatePod (joinedPod ''rs-A-0'')])
   \<and> Join (joinFails ''graphql: This instance isn't bootstrapped yet'') clientA (assignedPod ''rs-A-0'')
         (worldOf pairPods [])
       = (Some ErrTopologyIsDown, worldOf pairPods [JoinServer (joinRequestOf ''rs-A-0'')])
   \<and> forEach (instanceStep (joinFails ''graphql: This instance isn't bootstrapped yet'') clientA)
         [steadyGroup ''rs-A'' 2] (worldOf pairPods [])
       = forEach (joinStep (joinFails ''graphql: This instance isn't bootstrapped yet'') clientA
                    (steadyGroup ''rs-A'' 2)) [1]
           (worldOf pairPods [JoinServer (joinRequestOf ''rs-A-0'')])
   \<and> Join (joinFails ''graphql: timeout'') clientA (assignedPod ''rs-A-0'') (worldOf pairPods [])
       = (Some (ErrTransport ''graphql: timeout''), worldOf pairPods [JoinServer (joinRequestOf ''rs-A-0'')])
   \<and> Reconcile (joinFails ''graphql: timeout'') clientA [steadyGroup ''rs-A'' 2] (worldOf pairPods [])
       = Return requeueAfter5 None (worldOf pairPods [JoinServer (joinRequestOf ''rs-A-0'')])"
proof -
  let ?w = "worldOf pairPods []"
  let ?g = "steadyGroup ''rs-A'' 2"
  let ?w1 = "worldOf pairPods [JoinServer (joinRequestOf ''rs-A-0'')]"
  let ?w2 = "worldOf (pairPods(''rs-A-0'' \<mapsto> joinedPod ''rs-A-0''))
               [JoinServer (joinRequestOf ''rs-A-0''), UpdatePod (joinedPod ''rs-A-0'')]"
  let ?w2' = "worldOf pairPods [JoinServer (joinRequestOf ''rs-A-0''), UpdatePod (joinedPod ''rs-A-0'')]"
  let ?refusing = "storeRefuses (joinFails ''graphql: already joined'')"
  have settled: "list_all (settledGroup e ?w) []" for e
    by simp
  have idx: "replicaIndices ?g = [] @ 0 # [1]"
    by (simp add: scenario_defs steadyGroup_def)
  have assigned: "list_all (podState (joinFails t) ?w ?g HasInstanceUUID) (replicaIndices ?g)" for t
    by (simp add: podState_def scenario_defs steadyGroup_def worldOf_def pairPods_def joinFails_def)
  have assigned': "list_all (podState quietEnv ?w ?g HasInstanceUUID) (replicaIndices ?g)"
    by (simp add: podState_def scenario_defs steadyGroup_def worldOf_def pairPods_def)
  have assigned'': "list_all (podState ?refusing ?w ?g HasInstanceUUID) (replicaIndices ?g)"
    by (simp add: podState_def scenario_defs steadyGroup_def worldOf_def pairPods_def joinFails_def
        storeRefuses_def)
  have before: "list_all (podState e ?w ?g IsJoined) []" for e
    by simp
  have pod: "kGetPod (joinFails t) ?w (podName ?g 0) = Inr (assignedPod ''rs-A-0'')" for t
    by (simp add: scenario_defs steadyGroup_def worldOf_def pairPods_def joinFails_def)
  have pod': "kGetPod quietEnv ?w (podName ?g 0) = Inr (assignedPod ''rs-A-0'')"
    by (simp add: scenario_defs steadyGroup_def worldOf_def pairPods_def)
  have pod'': "kGetPod ?refusing ?w (podName ?g 0) = Inr (assignedPod ''rs-A-0'')"
    by (simp add: scenario_defs steadyGroup_def worldOf_def pairPods_def joinFails_def storeRefuses_def)
  have unjoined: "\<not> IsJoined (assignedPod ''rs-A-0'')"
    by simp
  have store: "kUpdatePod (joinFails t) (MarkJoined (assignedPod ''rs-A-0'')) ?w1 = (None, ?w2)" for t
    by (simp add: scenario_defs worldOf_def joinFails_def)
  have store': "kUpdatePod quietEnv (MarkJoined (assignedPod ''rs-A-0'')) ?w1 = (None, ?w2)"
    by (simp add: scenario_defs worldOf_def)
  have store'': "kUpdatePod ?refusing (MarkJoined (assignedPod ''rs-A-0'')) ?w1
                   = (Some (ErrKube ''conflict''), ?w2')"
    by (simp add: scenario_defs worldOf_def joinFails_def storeRefuses_def)
  have j1: "Join quietEnv clientA (assignedPod ''rs-A-0'') ?w = (None, ?w1)"
    by (simp add: Join_def scenario_defs worldOf_def)
  have j2: "Join (joinFails ''graphql: already joined'') clientA (assignedPod ''rs-A-0'') ?w
              = (Some ErrAlreadyJoined, ?w1)"
    by (simp add: Join_def scenario_defs worldOf_def joinFails_def)
  have j2': "Join ?refusing clientA (assignedPod ''rs-A-0'') ?w = (Some ErrAlreadyJoined, ?w1)"
    by (simp add: Join_def scenario_defs worldOf_def joinFails_def storeRefuses_def)
  have j3: "Join (joinFails ''graphql: This instance isn't bootstrapped yet'') clientA
                (assignedPod ''rs-A-0'') ?w
              = (Some ErrTopologyIsDown, ?w1)"
    by (simp add: Join_def scenario_defs worldOf_def joinFails_def)
  have j4: "Join (joinFails ''graphql: timeout'') clientA (assignedPod ''rs-A-0'') ?w
              = (Some (ErrTransport ''graphql: timeout''), ?w1)"
    by (simp add: Join_def scenario_defs worldOf_def joinFails_def)
  from join_attempt_outcomes [OF settled assigned' idx before pod' unjoined j1 store', of "[]"]
       join_attempt_outcomes [OF settled assigned idx before pod unjoined j2 store, of "[]"]
       join_attempt_outcomes [OF settled assigned'' idx before pod'' unjoined j2' store'', of "[]"]
       join_attempt_outcomes [OF settled assigned idx before pod unjoined j3 store, of "[]"]
       join_attempt_outcomes [OF settled assigned idx before pod unjoined j4 store, of "[]"]
       assigned' pod' unjoined j1 j2 j3 j4 store''
  show ?thesis
    by (simp split: flow.splits)
qed




end
